theory Spec2Isabelle
  imports Complex_Main
begin

section \<open>Focus Writer Pro: the session controller\<close>

text \<open>
  The development embeds the renderer process (class \<open>FocusWriterApp\<close>), the preload
  bridge (\<open>window.focusWriter\<close>) and the IPC handlers of the main process.  Every handler
  runs to completion before the next event is taken, as on the single-threaded event
  loop; an \<open>await\<close> is modelled as the call having returned.  Writes to the file system
  succeed; the \<open>catch\<close> branches of the main process, which only log, are not modelled.
\<close>

subsection \<open>Strings\<close>

text \<open>
  Text is a \<open>string\<close> whose characters are the code units below 256.
  \<open>String.prototype.trim\<close>, \<open>parseInt\<close> and the regular expression class \<open>\s\<close> agree on
  which characters are white space; in this range these are TAB, LF, VT, FF, CR, SPACE
  and the no-break space U+00A0.
\<close>

definition isWhiteSpace :: "char \<Rightarrow> bool" where
  "isWhiteSpace c \<longleftrightarrow>
     c \<in> set [CHR 0x09, CHR 0x0A, CHR 0x0B, CHR 0x0C, CHR 0x0D, CHR 0x20, CHR 0xA0]"

definition trim :: "string \<Rightarrow> string" where
  "trim s = rev (dropWhile isWhiteSpace (rev (dropWhile isWhiteSpace s)))"

text \<open>
  \<open>s.split(/\s+/)\<close>: the pieces of \<open>s\<close> between the maximal runs of white space.  A
  string without white space is returned whole (so the empty string gives one empty
  piece), and white space at either end leaves an empty piece there.
\<close>

function splitWhitespace :: "string \<Rightarrow> string list" where
  "splitWhitespace s =
     (let tok = takeWhile (\<lambda>c. \<not> isWhiteSpace c) s;
          rest = dropWhile (\<lambda>c. \<not> isWhiteSpace c) s
      in if rest = [] then [tok] else tok # splitWhitespace (dropWhile isWhiteSpace rest))"
  by pat_completeness auto
termination
proof (relation "measure length", goal_cases)
  case 1
  show ?case by simp
next
  case (2 s tok rest)
  then have ne: "rest \<noteq> []" and rest: "rest = dropWhile (\<lambda>c. \<not> isWhiteSpace c) s"
    by simp_all
  from ne rest have "isWhiteSpace (hd rest)"
    using hd_dropWhile [of "\<lambda>c. \<not> isWhiteSpace c" s] by simp
  with ne have "length (dropWhile isWhiteSpace rest) < length rest"
    by (cases rest) (simp_all add: length_dropWhile_le le_imp_less_Suc)
  moreover have "length rest \<le> length s"
    by (simp add: rest length_dropWhile_le)
  ultimately show ?case by simp
qed

declare splitWhitespace.simps [simp del]

text \<open>\<open>countWords(text)\<close> of the renderer.\<close>

definition countWords :: "string \<Rightarrow> nat" where
  "countWords text =
     (if text = [] \<or> trim text = [] then 0
      else length (filter (\<lambda>word. length word > 0) (splitWhitespace (trim text))))"

text \<open>\<open>getWordCount()\<close> of the browser prototype \<open>app.js\<close>, on the editor's value.\<close>

definition getWordCount :: "string \<Rightarrow> nat" where
  "getWordCount editorValue =
     (let text = trim editorValue
      in if text = [] then 0
         else length (filter (\<lambda>word. length word > 0) (splitWhitespace text)))"

text \<open>
  The counting rule in the words of the specification: the tokens of a text are its
  maximal runs of characters that are not white space; empty tokens do not occur.
  \<open>tokensFrom cur s\<close> scans \<open>s\<close> with the token \<open>cur\<close> under construction.
\<close>

fun tokensFrom :: "string \<Rightarrow> string \<Rightarrow> string list" where
  "tokensFrom cur [] = (if cur = [] then [] else [cur])"
| "tokensFrom cur (c # cs) =
     (if isWhiteSpace c then (if cur = [] then tokensFrom [] cs else cur # tokensFrom [] cs)
      else tokensFrom (cur @ [c]) cs)"

definition tokens :: "string \<Rightarrow> string list" where
  "tokens s = tokensFrom [] s"

text \<open>
  \<open>String.prototype.toUpperCase\<close>, character by character: the letters \<open>a\<close> to \<open>z\<close> and the
  accented small letters U+00E0 to U+00FE (but not the division sign U+00F7) move down by
  32, the sharp s U+00DF becomes \<open>SS\<close>, every other character is kept.  The capitals of the
  micro sign U+00B5 and of U+00FF lie beyond code unit 255; they are no ASCII letters, so a
  comparison of the result with ASCII text is not affected by keeping the two.
\<close>

definition upperCaseOf :: "char \<Rightarrow> string" where
  "upperCaseOf c =
     (let n = (of_char c :: nat)
      in if 97 \<le> n \<and> n \<le> 122 then [char_of (n - 32)]
         else if n = 223 then ''SS''
         else if 224 \<le> n \<and> n \<le> 254 \<and> n \<noteq> 247 then [char_of (n - 32)]
         else [c])"

definition toUpperCase :: "string \<Rightarrow> string" where
  "toUpperCase s = concat (map upperCaseOf s)"

subsection \<open>Numbers\<close>

text \<open>
  \<open>parseInt(string)\<close> without a radix.  \<open>None\<close> stands for \<open>NaN\<close>.  Leading white space is
  skipped, one sign is read, a prefix \<open>0x\<close> or \<open>0X\<close> selects radix 16, and the longest
  prefix of digits of the radix is the number; what follows is ignored.  The result is an
  unbounded integer: the double that \<open>parseInt\<close> returns is exact up to \<open>2^53\<close> and
  compares the same way against the goal bounds beyond.
\<close>

definition digitValue :: "char \<Rightarrow> nat option" where
  "digitValue c =
     (let n = (of_char c :: nat)
      in if 48 \<le> n \<and> n \<le> 57 then Some (n - 48)
         else if 97 \<le> n \<and> n \<le> 122 then Some (n - 87)
         else if 65 \<le> n \<and> n \<le> 90 then Some (n - 55)
         else None)"

definition isDigit :: "nat \<Rightarrow> char \<Rightarrow> bool" where
  "isDigit R c = (case digitValue c of None \<Rightarrow> False | Some d \<Rightarrow> d < R)"

definition digitsValue :: "nat \<Rightarrow> string \<Rightarrow> int" where
  "digitsValue R Z =
     foldl (\<lambda>acc c. acc * int R + (case digitValue c of None \<Rightarrow> 0 | Some d \<Rightarrow> int d)) 0 Z"

definition parseInt :: "string \<Rightarrow> int option" where
  "parseInt string =
     (let S = dropWhile isWhiteSpace string;
          sign = (case S of c # _ \<Rightarrow> if c = CHR ''-'' then - 1 else 1 | [] \<Rightarrow> (1::int));
          S = (case S of c # cs \<Rightarrow> if c = CHR ''+'' \<or> c = CHR ''-'' then cs else S | [] \<Rightarrow> S);
          hex = (take 2 S = ''0x'' \<or> take 2 S = ''0X'');
          R = (if hex then 16 else 10);
          S = (if hex then drop 2 S else S);
          Z = takeWhile (isDigit R) S
      in if Z = [] then None else Some (sign * digitsValue R Z))"

text \<open>\<open>Number.prototype.toString\<close> on integers, and \<open>padStart(2, '0')\<close>.\<close>

fun digitsOf :: "nat \<Rightarrow> string" where
  "digitsOf n =
     (if n < 10 then [''0123456789'' ! n]
      else digitsOf (n div 10) @ [''0123456789'' ! (n mod 10)])"

declare digitsOf.simps [simp del]

definition toString :: "int \<Rightarrow> string" where
  "toString n = (if n < 0 then CHR ''-'' # digitsOf (nat (- n)) else digitsOf (nat n))"

definition padStart2 :: "string \<Rightarrow> string" where
  "padStart2 s = replicate (2 - length s) (CHR ''0'') @ s"

text \<open>The remainder operator \<open>%\<close>: the result has the sign of the dividend.\<close>

definition jsRem :: "int \<Rightarrow> int \<Rightarrow> int" where
  "jsRem a b = sgn a * (\<bar>a\<bar> mod \<bar>b\<bar>)"

text \<open>\<open>formatTime(seconds)\<close>; \<open>Math.floor\<close> of a quotient of integers is \<open>div\<close>.\<close>

definition formatTime :: "int \<Rightarrow> string" where
  "formatTime seconds =
     (let hrs = seconds div 3600;
          mins = jsRem seconds 3600 div 60;
          secs = jsRem seconds 60
      in if hrs > 0
         then toString hrs @ '':'' @ padStart2 (toString mins) @ '':'' @ padStart2 (toString secs)
         else padStart2 (toString mins) @ '':'' @ padStart2 (toString secs))"

text \<open>
  \<open>Math.ceil(goalValue * 1.2)\<close> in IEEE 754 double precision.  The literal \<open>1.2\<close> denotes
  the double \<open>5404319552844595 / 2^52\<close>.  The product of the integer \<open>g\<close> with it is
  the exact rational \<open>g * 5404319552844595 / 2^52\<close> rounded to 53 significant bits, ties
  to even; \<open>roundSignificand n\<close> is that rounding on the numerator (the exponent range
  of doubles is not reached by any numerator below \<open>2^1000\<close>).
\<close>

fun bitLength :: "nat \<Rightarrow> nat" where
  "bitLength n = (if n = 0 then 0 else Suc (bitLength (n div 2)))"

declare bitLength.simps [simp del]

definition roundSignificand :: "nat \<Rightarrow> nat" where
  "roundSignificand n =
     (let sh = bitLength n - 53;
          q = n div 2 ^ sh;
          r = n mod 2 ^ sh;
          up = (2 * r > 2 ^ sh \<or> (2 * r = 2 ^ sh \<and> odd q))
      in (if up then q + 1 else q) * 2 ^ sh)"

definition ceilTimes1_2 :: "int \<Rightarrow> int" where
  "ceilTimes1_2 g =
     (if g \<ge> 0
      then (int (roundSignificand (nat g * 5404319552844595)) + (2 ^ 52 - 1)) div 2 ^ 52
      else - (int (roundSignificand (nat (- g) * 5404319552844595)) div 2 ^ 52))"

subsection \<open>Data\<close>

datatype goalType = Words | Time

datatype screen = Welcome | Writing | Completion

datatype callback = TickTimer | AutoSaveTimer

datatype logLine = TimeJump int | ReleaseFailed

text \<open>
  \<open>this.session\<close>.  An interval handle is \<open>None\<close> for \<open>null\<close>; \<open>startTime\<close> is \<open>None\<close> for
  \<open>null\<close> and a reading of \<open>Date.now()\<close> in milliseconds otherwise.
\<close>

record session =
  active :: bool
  goalType :: goalType
  goalValue :: int
  strictMode :: bool
  startTime :: "int option"
  startWordCount :: int
  currentWordCount :: int
  timerInterval :: "nat option"
  autoSaveInterval :: "nat option"
  elapsedSeconds :: int
  goalTriggered :: bool
  goalCompleted :: bool

text \<open>The object literal of the constructor and of \<open>resetSession\<close>.\<close>

definition initialSession :: session where
  "initialSession =
     \<lparr>active = False, goalType = Words, goalValue = 500, strictMode = True,
      startTime = None, startWordCount = 0, currentWordCount = 0,
      timerInterval = None, autoSaveInterval = None, elapsedSeconds = 0,
      goalTriggered = False, goalCompleted = False\<rparr>"

text \<open>The argument of \<open>start-session\<close> and the \<open>stats\<close> of \<open>end-session\<close>.\<close>

record config =
  configGoalType :: goalType
  configGoalValue :: int
  configStrictMode :: bool

record stats =
  words :: int
  duration :: string
  statsGoalType :: goalType
  statsGoalValue :: int
  completed :: bool

text \<open>
  The main process: the window with the properties the lockdown sets, and the module
  variables.  \<open>lockdownInterval\<close> and \<open>shortcuts\<close> tell whether the focus interval runs and
  whether global shortcuts are registered.
\<close>

record window =
  kiosk :: bool
  fullScreen :: bool
  alwaysOnTop :: bool
  closable :: bool
  minimizable :: bool
  visibleOnAllWorkspaces :: bool

record mainProcess =
  mainWindow :: "window option"
  isSessionActive :: bool
  sessionConfig :: "config option"
  lockdownInterval :: bool
  shortcuts :: bool

text \<open>
  The documents folder: \<open>current.txt\<close>, the archive \<open>drafts/\<close> (a file name is the clock
  reading cut to the second, so a second archive in the same second replaces the first)
  and \<open>sessions.json\<close>.  An archive file is kept as its header fields and its body.
  \<open>currentWrites\<close> counts the writes of \<open>current.txt\<close>.
\<close>

record archive =
  headerDate :: int
  headerWords :: int
  headerDuration :: string
  body :: string

record historyEntry =
  date :: int
  entryWords :: int
  entryDuration :: "string option"
  entryGoalType :: "goalType option"
  entryGoalValue :: "int option"
  entryCompleted :: bool
  draftPath :: int

record disk =
  current :: "string option"
  currentWrites :: nat
  drafts :: "int \<Rightarrow> archive option"
  sessions :: "historyEntry list"

text \<open>
  The whole application.  Besides \<open>this.session\<close> the renderer holds the values of the
  form fields, the visibility of the emergency modal and of the goal banner, the active
  screen, the validation toast and the console.  \<open>intervals\<close> are the live timers of the
  renderer's event loop and \<open>nextHandle\<close> the handle \<open>setInterval\<close> returns next.
  \<open>goalReachedCalls\<close> counts the calls of \<open>goalReached()\<close>, and \<open>invoked\<close> lists the channels
  on which the renderer has called \<open>ipcRenderer.invoke\<close>, in order.
\<close>

record world =
  session :: session
  editor :: string
  currentDraft :: string
  wordGoal :: string
  timeGoal :: string
  strictModeToggle :: bool
  emergencyInput :: string
  emergencyModal :: bool
  goalBanner :: bool
  screen :: screen
  toast :: "string option"
  console :: "logLine list"
  intervals :: "(nat \<times> callback) list"
  nextHandle :: nat
  goalReachedCalls :: nat
  invoked :: "string list"
  main :: mainProcess
  disk :: disk

subsection \<open>The main process\<close>

text \<open>\<open>enterLockdown\<close>, \<open>exitLockdown\<close> and \<open>showCompletion\<close>; each returns at once without a window.\<close>

definition enterLockdown :: "mainProcess \<Rightarrow> mainProcess" where
  "enterLockdown m =
     (case mainWindow m of
        None \<Rightarrow> m
      | Some win \<Rightarrow>
          m\<lparr>isSessionActive := True,
            mainWindow := Some (win\<lparr>kiosk := True, fullScreen := True, alwaysOnTop := True,
              closable := False, minimizable := False, visibleOnAllWorkspaces := True\<rparr>),
            shortcuts := True,
            lockdownInterval := True\<rparr>)"

definition exitLockdown :: "mainProcess \<Rightarrow> mainProcess" where
  "exitLockdown m =
     (case mainWindow m of
        None \<Rightarrow> m
      | Some win \<Rightarrow>
          m\<lparr>isSessionActive := False,
            lockdownInterval := False,
            shortcuts := False,
            mainWindow := Some (win\<lparr>kiosk := False, fullScreen := False, alwaysOnTop := False,
              closable := True, minimizable := True, visibleOnAllWorkspaces := False\<rparr>)\<rparr>)"

definition showCompletion :: "mainProcess \<Rightarrow> mainProcess" where
  "showCompletion m =
     (case mainWindow m of
        None \<Rightarrow> m
      | Some win \<Rightarrow>
          m\<lparr>isSessionActive := False,
            lockdownInterval := False,
            shortcuts := False,
            mainWindow := Some (win\<lparr>kiosk := False, fullScreen := False, alwaysOnTop := False,
              closable := True, minimizable := True, visibleOnAllWorkspaces := False\<rparr>)\<rparr>)"

text \<open>The test \<open>sessionConfig && sessionConfig.strictMode !== false\<close>.\<close>

definition strictConfig :: "mainProcess \<Rightarrow> bool" where
  "strictConfig m = (case sessionConfig m of None \<Rightarrow> False | Some c \<Rightarrow> configStrictMode c)"

definition setFullScreen :: "bool \<Rightarrow> mainProcess \<Rightarrow> mainProcess" where
  "setFullScreen b m =
     (case mainWindow m of
        None \<Rightarrow> m
      | Some win \<Rightarrow> m\<lparr>mainWindow := Some (win\<lparr>fullScreen := b\<rparr>)\<rparr>)"

text \<open>The handlers of the channels \<open>start-session\<close> and \<open>goal-reached\<close>.\<close>

definition start_session :: "config \<Rightarrow> mainProcess \<Rightarrow> mainProcess" where
  "start_session cfg m =
     (let m = m\<lparr>sessionConfig := Some cfg\<rparr>
      in if configStrictMode cfg then enterLockdown m
         else setFullScreen True (m\<lparr>isSessionActive := True\<rparr>))"

definition goal_reached :: "mainProcess \<Rightarrow> mainProcess" where
  "goal_reached m =
     (if strictConfig m then showCompletion m else m\<lparr>isSessionActive := False\<rparr>)"

text \<open>\<open>saveContent\<close>, \<open>logSession\<close> and \<open>archiveDraft\<close>; \<open>now\<close> is the clock reading of \<open>new Date()\<close>.\<close>

definition saveContent :: "string \<Rightarrow> disk \<Rightarrow> disk" where
  "saveContent content d = d\<lparr>current := Some content, currentWrites := currentWrites d + 1\<rparr>"

definition logSession :: "int \<Rightarrow> stats \<Rightarrow> int \<Rightarrow> disk \<Rightarrow> disk" where
  "logSession now st path d =
     d\<lparr>sessions := sessions d @
        [\<lparr>date = now,
          entryWords = (if words st = 0 then 0 else words st),
          entryDuration = (if duration st = [] then None else Some (duration st)),
          entryGoalType = Some (statsGoalType st),
          entryGoalValue = (if statsGoalValue st = 0 then None else Some (statsGoalValue st)),
          entryCompleted = (if completed st then True else False),
          draftPath = path\<rparr>]\<rparr>"

definition archiveDraft :: "int \<Rightarrow> string \<Rightarrow> stats \<Rightarrow> disk \<Rightarrow> disk" where
  "archiveDraft now content st d =
     (let filePath = now div 1000;
          header = \<lparr>headerDate = now,
                    headerWords = (if words st = 0 then 0 else words st),
                    headerDuration = (if duration st = [] then ''N/A'' else duration st),
                    body = content\<rparr>;
          d = d\<lparr>drafts := (drafts d)(filePath \<mapsto> header)\<rparr>
      in logSession now st filePath d)"

text \<open>
  The handlers of \<open>end-session\<close> and \<open>emergency-exit\<close>, on the main process and the
  documents folder; the empty string is the only falsy \<open>content\<close>.
\<close>

definition releaseOnExit :: "mainProcess \<Rightarrow> mainProcess" where
  "releaseOnExit m =
     (let m = (if strictConfig m then exitLockdown m
               else setFullScreen False (m\<lparr>isSessionActive := False\<rparr>))
      in m\<lparr>sessionConfig := None\<rparr>)"

definition end_session :: "int \<Rightarrow> string \<Rightarrow> stats \<Rightarrow> mainProcess \<times> disk \<Rightarrow> mainProcess \<times> disk" where
  "end_session now content st md =
     (let d = (if content \<noteq> [] then archiveDraft now content st (saveContent content (snd md))
               else snd md)
      in (releaseOnExit (fst md), d))"

definition emergency_exit :: "string \<Rightarrow> mainProcess \<times> disk \<Rightarrow> mainProcess \<times> disk" where
  "emergency_exit content md =
     (let d = (if content \<noteq> [] then saveContent content (snd md) else snd md)
      in (releaseOnExit (fst md), d))"

text \<open>The handler of \<open>load-draft\<close>: the content of \<open>current.txt\<close>, or the empty string.\<close>

definition load_draft :: "disk \<Rightarrow> string" where
  "load_draft d = (case current d of None \<Rightarrow> [] | Some content \<Rightarrow> content)"

subsection \<open>The preload bridge\<close>

text \<open>
  The keys of the object that \<open>preload.js\<close> exposes as \<open>window.focusWriter\<close>.  Calling a
  key that is not among them throws a \<open>TypeError\<close> in the renderer.  Each exposed method
  invokes its channel, whose handler runs in the main process.
\<close>

definition preload :: "string list" where
  "preload =
     [''startSession'', ''endSession'', ''emergencyExit'', ''saveContent'', ''loadDraft'',
      ''clearDraft'', ''loadSessions'', ''saveSettings'', ''loadSettings'',
      ''getDocumentsPath'', ''onShowExitWarning'']"

definition exposed :: "string \<Rightarrow> bool" where
  "exposed key \<longleftrightarrow> key \<in> set preload"

definition invoke :: "string \<Rightarrow> world \<Rightarrow> world" where
  "invoke channel w = w\<lparr>invoked := invoked w @ [channel]\<rparr>"

definition focusWriter_startSession :: "config \<Rightarrow> world \<Rightarrow> world" where
  "focusWriter_startSession cfg w =
     (let w = invoke ''start-session'' w in w\<lparr>main := start_session cfg (main w)\<rparr>)"

definition focusWriter_endSession :: "int \<Rightarrow> string \<Rightarrow> stats \<Rightarrow> world \<Rightarrow> world" where
  "focusWriter_endSession now content st w =
     (let w = invoke ''end-session'' w;
          md = end_session now content st (main w, disk w)
      in w\<lparr>main := fst md, disk := snd md\<rparr>)"

definition focusWriter_emergencyExit :: "string \<Rightarrow> world \<Rightarrow> world" where
  "focusWriter_emergencyExit content w =
     (let w = invoke ''emergency-exit'' w;
          md = emergency_exit content (main w, disk w)
      in w\<lparr>main := fst md, disk := snd md\<rparr>)"

definition focusWriter_saveContent :: "string \<Rightarrow> world \<Rightarrow> world" where
  "focusWriter_saveContent content w =
     (let w = invoke ''save-content'' w in w\<lparr>disk := saveContent content (disk w)\<rparr>)"

subsection \<open>The renderer\<close>

text \<open>
  \<open>setInterval\<close> and \<open>clearInterval\<close> on the renderer's event loop.  The handle that
  \<open>setInterval\<close> returns is a positive integer, so a handle that the session holds is
  truthy and \<open>null\<close> is the only falsy one; the handles are counted from \<open>nextHandle\<close>.
\<close>

definition setInterval :: "callback \<Rightarrow> world \<Rightarrow> nat \<times> world" where
  "setInterval cb w =
     (nextHandle w,
      w\<lparr>intervals := intervals w @ [(nextHandle w, cb)], nextHandle := nextHandle w + 1\<rparr>)"

definition clearInterval :: "nat option \<Rightarrow> world \<Rightarrow> world" where
  "clearInterval h w = w\<lparr>intervals := filter (\<lambda>(i, cb). Some i \<noteq> h) (intervals w)\<rparr>"

text \<open>
  The value that \<open>updateProgress\<close> gives the progress bar, in percent; the goal fraction
  of the specification is a hundredth of it.
\<close>

definition progress :: "session \<Rightarrow> real" where
  "progress s =
     (if goalType s = Words
      then (let wordsWritten = max 0 (currentWordCount s - startWordCount s)
            in min 100 (real_of_int wordsWritten / real_of_int (goalValue s) * 100))
      else (let targetSeconds = goalValue s * 60
            in min 100 (real_of_int (elapsedSeconds s) / real_of_int targetSeconds * 100)))"

text \<open>\<open>autoSave\<close>; the save indicator is not modelled.\<close>

definition autoSave :: "world \<Rightarrow> world" where
  "autoSave w =
     (if \<not> active (session w) \<and> \<not> goalCompleted (session w) then w
      else focusWriter_saveContent (editor w) w)"

text \<open>
  \<open>goalReached\<close>.  The call \<open>window.focusWriter.goalReached()\<close> stands in a \<open>try\<close> block
  whose \<open>catch\<close> logs the failure.
\<close>

definition goalReached :: "world \<Rightarrow> world" where
  "goalReached w =
     (let w = w\<lparr>goalReachedCalls := goalReachedCalls w + 1\<rparr>;
          w = w\<lparr>session := (session w)\<lparr>active := False, goalCompleted := True\<rparr>\<rparr>;
          w = clearInterval (autoSaveInterval (session w)) w;
          w = autoSave w;
          w = (if exposed ''goalReached''
               then (invoke ''goal-reached'' w)\<lparr>main := goal_reached (main w)\<rparr>
               else w\<lparr>console := console w @ [ReleaseFailed]\<rparr>)
      in w\<lparr>goalBanner := True\<rparr>)"

text \<open>\<open>tick\<close>; \<open>now\<close> is the reading of \<open>Date.now()\<close>, and \<open>null\<close> counts as 0 in the difference.\<close>

definition tick :: "int \<Rightarrow> world \<Rightarrow> world" where
  "tick now w =
     (let actualElapsed = (now - (case startTime (session w) of None \<Rightarrow> 0 | Some t \<Rightarrow> t)) div 1000;
          timeDrift = actualElapsed - elapsedSeconds (session w);
          w = (if timeDrift > 5 then w\<lparr>console := console w @ [TimeJump timeDrift]\<rparr> else w);
          w = w\<lparr>session := (session w)\<lparr>elapsedSeconds := actualElapsed\<rparr>\<rparr>
      in if goalType (session w) = Time \<and> \<not> goalTriggered (session w)
         then (if elapsedSeconds (session w) \<ge> goalValue (session w) * 60
               then goalReached (w\<lparr>session := (session w)\<lparr>goalTriggered := True\<rparr>\<rparr>)
               else w)
         else w)"

text \<open>\<open>handleEditorInput\<close>, after the editor's value has changed.\<close>

definition handleEditorInput :: "world \<Rightarrow> world" where
  "handleEditorInput w =
     (let content = editor w;
          w = w\<lparr>session := (session w)\<lparr>currentWordCount := int (countWords content)\<rparr>\<rparr>
      in if goalType (session w) = Words \<and> \<not> goalTriggered (session w)
         then (let wordsWritten = currentWordCount (session w) - startWordCount (session w)
               in if wordsWritten \<ge> goalValue (session w)
                  then goalReached (w\<lparr>session := (session w)\<lparr>goalTriggered := True\<rparr>\<rparr>)
                  else w)
         else w)"

text \<open>\<open>showValidationError\<close> puts the message into a toast.\<close>

definition showValidationError :: "string \<Rightarrow> world \<Rightarrow> world" where
  "showValidationError message w = w\<lparr>toast := Some message\<rparr>"

text \<open>
  \<open>startSession\<close>.  \<open>toLocaleString\<close> is the number formatting of the host's locale and
  \<open>now\<close> the reading of \<open>Date.now()\<close>.  \<open>beginSession\<close> is the part after the validation.
\<close>

definition beginSession :: "int \<Rightarrow> int \<Rightarrow> world \<Rightarrow> world" where
  "beginSession rawValue now w =
     (let w = w\<lparr>session := (session w)\<lparr>goalValue := rawValue\<rparr>\<rparr>;
          w = w\<lparr>session := (session w)\<lparr>strictMode := strictModeToggle w\<rparr>\<rparr>;
          w = w\<lparr>editor := currentDraft w\<rparr>;
          w = w\<lparr>session := (session w)\<lparr>startWordCount := int (countWords (editor w))\<rparr>\<rparr>;
          w = w\<lparr>session := (session w)\<lparr>currentWordCount := startWordCount (session w)\<rparr>\<rparr>;
          w = w\<lparr>session := (session w)\<lparr>startTime := Some now, elapsedSeconds := 0, active := True\<rparr>\<rparr>;
          w = focusWriter_startSession
                \<lparr>configGoalType = goalType (session w), configGoalValue = goalValue (session w),
                 configStrictMode = strictMode (session w)\<rparr> w;
          w = w\<lparr>screen := Writing\<rparr>;
          w = (case setInterval TickTimer w of
                 (h, w) \<Rightarrow> w\<lparr>session := (session w)\<lparr>timerInterval := Some h\<rparr>\<rparr>);
          w = (case setInterval AutoSaveTimer w of
                 (h, w) \<Rightarrow> w\<lparr>session := (session w)\<lparr>autoSaveInterval := Some h\<rparr>\<rparr>)
      in w)"

definition startSession :: "(int \<Rightarrow> string) \<Rightarrow> int \<Rightarrow> world \<Rightarrow> world" where
  "startSession toLocaleString now w =
     (let MIN_WORDS = 10; MAX_WORDS = 50000; MIN_MINUTES = 1; MAX_MINUTES = 480
      in if goalType (session w) = Words
         then (case parseInt (wordGoal w) of
                 None \<Rightarrow> showValidationError
                   (''Word goal must be at least '' @ toString MIN_WORDS @ '' words'') w
               | Some rawValue \<Rightarrow>
                   if rawValue < MIN_WORDS
                   then showValidationError
                     (''Word goal must be at least '' @ toString MIN_WORDS @ '' words'') w
                   else if rawValue > MAX_WORDS
                   then showValidationError
                     (''Word goal cannot exceed '' @ toLocaleString MAX_WORDS @ '' words'') w
                   else beginSession rawValue now w)
         else (case parseInt (timeGoal w) of
                 None \<Rightarrow> showValidationError
                   (''Time goal must be at least '' @ toString MIN_MINUTES @ '' minute'') w
               | Some rawValue \<Rightarrow>
                   if rawValue < MIN_MINUTES
                   then showValidationError
                     (''Time goal must be at least '' @ toString MIN_MINUTES @ '' minute'') w
                   else if rawValue > MAX_MINUTES
                   then showValidationError
                     (''Time goal cannot exceed '' @ toString MAX_MINUTES @ '' minutes (8 hours)'') w
                   else beginSession rawValue now w))"

text \<open>\<open>loadDraft\<close>, \<open>resetSession\<close>, \<open>saveAndExit\<close> and \<open>keepWriting\<close>.\<close>

definition loadDraft :: "world \<Rightarrow> world" where
  "loadDraft w =
     (let w = invoke ''load-draft'' w;
          content = load_draft (disk w)
      in if content \<noteq> [] \<and> trim content \<noteq> [] then w\<lparr>currentDraft := content\<rparr>
         else w\<lparr>currentDraft := []\<rparr>)"

definition resetSession :: "world \<Rightarrow> world" where
  "resetSession w =
     (let w = clearInterval (timerInterval (session w)) w;
          w = clearInterval (autoSaveInterval (session w)) w;
          w = w\<lparr>session := initialSession\<rparr>
      in w\<lparr>goalBanner := False\<rparr>)"

definition saveAndExit :: "int \<Rightarrow> world \<Rightarrow> world" where
  "saveAndExit now w =
     (let content = editor w;
          wordsWritten = currentWordCount (session w) - startWordCount (session w);
          w = w\<lparr>goalBanner := False\<rparr>;
          w = focusWriter_endSession now content
                 \<lparr>words = wordsWritten,
                  duration = formatTime (elapsedSeconds (session w)),
                  statsGoalType = goalType (session w),
                  statsGoalValue = goalValue (session w),
                  completed = goalTriggered (session w)\<rparr> w;
          w = resetSession w;
          w = loadDraft w;
          w = invoke ''load-sessions'' w
      in w\<lparr>screen := Welcome\<rparr>)"

definition keepWriting :: "world \<Rightarrow> world" where
  "keepWriting w =
     (let w = (case timerInterval (session w) of
                 None \<Rightarrow> w
               | Some h \<Rightarrow> (clearInterval (Some h) w)\<lparr>session := (session w)\<lparr>timerInterval := None\<rparr>\<rparr>);
          w = (case autoSaveInterval (session w) of
                 None \<Rightarrow> w
               | Some h \<Rightarrow> (clearInterval (Some h) w)\<lparr>session := (session w)\<lparr>autoSaveInterval := None\<rparr>\<rparr>);
          w = (if goalType (session w) = Time
               then w\<lparr>session := (session w)\<lparr>goalValue := goalValue (session w) + 10\<rparr>\<rparr>
               else w\<lparr>session := (session w)\<lparr>goalValue := ceilTimes1_2 (goalValue (session w))\<rparr>\<rparr>);
          w = w\<lparr>session := (session w)\<lparr>goalTriggered := False, goalCompleted := False, active := True\<rparr>\<rparr>;
          w = w\<lparr>goalBanner := False\<rparr>;
          w = (case setInterval TickTimer w of
                 (h, w) \<Rightarrow> w\<lparr>session := (session w)\<lparr>timerInterval := Some h\<rparr>\<rparr>);
          w = (case setInterval AutoSaveTimer w of
                 (h, w) \<Rightarrow> w\<lparr>session := (session w)\<lparr>autoSaveInterval := Some h\<rparr>\<rparr>)
      in w\<lparr>screen := Writing\<rparr>)"

text \<open>The emergency exit: the modal, \<open>emergencyExit\<close> and \<open>checkEmergencyPhrase\<close>.\<close>

definition showEmergencyModal :: "world \<Rightarrow> world" where
  "showEmergencyModal w = w\<lparr>emergencyModal := True, emergencyInput := []\<rparr>"

definition hideEmergencyModal :: "world \<Rightarrow> world" where
  "hideEmergencyModal w = w\<lparr>emergencyModal := False\<rparr>"

definition emergencyExit :: "world \<Rightarrow> world" where
  "emergencyExit w =
     (let w = clearInterval (timerInterval (session w)) w;
          w = clearInterval (autoSaveInterval (session w)) w;
          content = editor w;
          w = focusWriter_emergencyExit content w;
          w = hideEmergencyModal w;
          w = resetSession w;
          w = loadDraft w
      in w\<lparr>screen := Welcome\<rparr>)"

definition checkEmergencyPhrase :: "world \<Rightarrow> world" where
  "checkEmergencyPhrase w =
     (let phrase = trim (toUpperCase (emergencyInput w))
      in if phrase = ''I GIVE UP'' then emergencyExit w else w)"

text \<open>\<open>handleGlobalKeydown\<close> for the Escape key.\<close>

definition handleGlobalKeydown :: "world \<Rightarrow> world" where
  "handleGlobalKeydown w = (if active (session w) then showEmergencyModal w else w)"

text \<open>
  The \<open>close\<close> event of the window.  While \<open>isSessionActive\<close> holds the default action is
  prevented and \<open>show-exit-warning\<close> reaches the renderer, whose listener shows the
  emergency modal.  Otherwise the window closes and the \<open>closed\<close> handler runs.
\<close>

definition windowClose :: "world \<Rightarrow> world" where
  "windowClose w =
     (if isSessionActive (main w) then showEmergencyModal w
      else w\<lparr>main := (main w)\<lparr>lockdownInterval := False, shortcuts := False, mainWindow := None\<rparr>\<rparr>)"

definition closePrevented :: "world \<Rightarrow> bool" where
  "closePrevented w \<longleftrightarrow> isSessionActive (main w)"

subsection \<open>Events\<close>

text \<open>
  What the event loop delivers: a timer with some handle elapses at a clock reading, the
  user changes the editor's text or the emergency field, presses a button or a key, or
  the host asks the window to close.  A timer that is no longer live does nothing.
\<close>

datatype event =
    TimerFires nat int
  | EditorInput string
  | EmergencyInput string
  | StartSessionClick int
  | KeepWritingClick
  | SaveAndExitClick int
  | EscapeKey
  | CloseRequest

definition step :: "(int \<Rightarrow> string) \<Rightarrow> event \<Rightarrow> world \<Rightarrow> world" where
  "step loc ev w =
     (case ev of
        TimerFires h now \<Rightarrow>
          (case map_of (intervals w) h of
             None \<Rightarrow> w
           | Some TickTimer \<Rightarrow> tick now w
           | Some AutoSaveTimer \<Rightarrow> autoSave w)
      | EditorInput text \<Rightarrow> handleEditorInput (w\<lparr>editor := text\<rparr>)
      | EmergencyInput text \<Rightarrow> checkEmergencyPhrase (w\<lparr>emergencyInput := text\<rparr>)
      | StartSessionClick now \<Rightarrow> startSession loc now w
      | KeepWritingClick \<Rightarrow> keepWriting w
      | SaveAndExitClick now \<Rightarrow> saveAndExit now w
      | EscapeKey \<Rightarrow> handleGlobalKeydown w
      | CloseRequest \<Rightarrow> windowClose w)"

fun run :: "(int \<Rightarrow> string) \<Rightarrow> event list \<Rightarrow> world \<Rightarrow> world" where
  "run loc [] w = w"
| "run loc (ev # evs) w = run loc evs (step loc ev w)"

text \<open>
  The phases of the specification, read off the two flags of the session: Active while
  \<open>active\<close>, GoalReached once \<open>goalReached\<close> has set \<open>goalCompleted\<close>, Idle otherwise.
\<close>

datatype phase = Idle | Active | GoalReached

definition phase :: "world \<Rightarrow> phase" where
  "phase w =
     (if active (session w) then Active
      else if goalCompleted (session w) then GoalReached
      else Idle)"

text \<open>The world at boot: the constructor's session, an open window, an empty folder.\<close>

definition boot :: world where
  "boot =
     \<lparr>session = initialSession, editor = [], currentDraft = [], wordGoal = ''500'',
      timeGoal = ''25'', strictModeToggle = True, emergencyInput = [],
      emergencyModal = False, goalBanner = False, screen = Welcome, toast = None,
      console = [], intervals = [], nextHandle = 1, goalReachedCalls = 0, invoked = [],
      main = \<lparr>mainWindow = Some \<lparr>kiosk = False, fullScreen = False, alwaysOnTop = False,
                 closable = True, minimizable = True, visibleOnAllWorkspaces = False\<rparr>,
               isSessionActive = False, sessionConfig = None, lockdownInterval = False,
               shortcuts = False\<rparr>,
      disk = \<lparr>current = None, currentWrites = 0, drafts = Map.empty, sessions = []\<rparr>\<rparr>"

text \<open>
  The goals that \<open>startSession\<close> accepts, the emergency phrase, and the events that
  neither end a session nor re-arm its latch.
\<close>

definition validGoal :: "session \<Rightarrow> bool" where
  "validGoal s =
     (if goalType s = Words then 10 \<le> goalValue s \<and> goalValue s \<le> 50000
      else 1 \<le> goalValue s \<and> goalValue s \<le> 480)"

definition emergencyPhrase :: "string \<Rightarrow> bool" where
  "emergencyPhrase text \<longleftrightarrow> trim (toUpperCase text) = ''I GIVE UP''"

fun sessionEvent :: "event \<Rightarrow> bool" where
  "sessionEvent (TimerFires h now) = True"
| "sessionEvent (EditorInput text) = True"
| "sessionEvent (EmergencyInput text) = (\<not> emergencyPhrase text)"
| "sessionEvent EscapeKey = True"
| "sessionEvent CloseRequest = True"
| "sessionEvent (StartSessionClick now) = False"
| "sessionEvent KeepWritingClick = False"
| "sessionEvent (SaveAndExitClick now) = False"

text \<open>
  An event brings the goal fraction to 1.0: a text change under a word goal, or a tick
  of a live timer under a time goal, after which the progress bar stands at 100 percent.
  \<open>fractionFullDuring\<close> tells whether some event of a sequence does so.
\<close>

definition fractionFull :: "event \<Rightarrow> world \<Rightarrow> bool" where
  "fractionFull ev w =
     (case ev of
        EditorInput text \<Rightarrow>
          goalType (session w) = Words \<and>
          progress ((session w)\<lparr>currentWordCount := int (countWords text)\<rparr>) = 100
      | TimerFires h now \<Rightarrow>
          goalType (session w) = Time \<and> map_of (intervals w) h = Some TickTimer \<and>
          progress ((session w)\<lparr>elapsedSeconds :=
            (now - (case startTime (session w) of None \<Rightarrow> 0 | Some t \<Rightarrow> t)) div 1000\<rparr>) = 100
      | _ \<Rightarrow> False)"

fun fractionFullDuring :: "(int \<Rightarrow> string) \<Rightarrow> event list \<Rightarrow> world \<Rightarrow> bool" where
  "fractionFullDuring loc [] w = False"
| "fractionFullDuring loc (ev # evs) w =
     (fractionFull ev w \<or> fractionFullDuring loc evs (step loc ev w))"

text \<open>
  A session with a goal of ten words, started on an empty draft.
\<close>

definition tenWordSession :: world where
  "tenWordSession = startSession toString 0 (boot\<lparr>wordGoal := ''10''\<rparr>)"

text \<open>
  A session with a time goal of one minute, started from the welcome screen at clock
  reading 7000.
\<close>

definition oneMinuteSession :: world where
  "oneMinuteSession =
     startSession toString 7000
       (boot\<lparr>session := initialSession\<lparr>goalType := Time\<rparr>, timeGoal := ''1''\<rparr>)"

text \<open>
  The elapsed seconds a tick computes, and the condition under which it fires the time goal.
\<close>

definition actualElapsed :: "int \<Rightarrow> world \<Rightarrow> int" where
  "actualElapsed now w =
     (now - (case startTime (session w) of None \<Rightarrow> 0 | Some t \<Rightarrow> t)) div 1000"

definition timeGoalDue :: "int \<Rightarrow> world \<Rightarrow> bool" where
  "timeGoalDue now w \<longleftrightarrow>
     goalType (session w) = Time \<and> \<not> goalTriggered (session w) \<and>
     goalValue (session w) * 60 \<le> actualElapsed now w"

text \<open>
  The goal field that \<open>startSession\<close> reads, the bounds of the goal type, and the two
  messages of each goal type.
\<close>

definition goalInput :: "world \<Rightarrow> string" where
  "goalInput w = (if goalType (session w) = Words then wordGoal w else timeGoal w)"

definition lowerBound :: "goalType \<Rightarrow> int" where
  "lowerBound t = (case t of Words \<Rightarrow> 10 | Time \<Rightarrow> 1)"

definition upperBound :: "goalType \<Rightarrow> int" where
  "upperBound t = (case t of Words \<Rightarrow> 50000 | Time \<Rightarrow> 480)"

definition tooSmallMessage :: "goalType \<Rightarrow> string" where
  "tooSmallMessage t =
     (case t of Words \<Rightarrow> ''Word goal must be at least 10 words''
      | Time \<Rightarrow> ''Time goal must be at least 1 minute'')"

definition tooLargeMessage :: "(int \<Rightarrow> string) \<Rightarrow> goalType \<Rightarrow> string" where
  "tooLargeMessage toLocaleString t =
     (case t of Words \<Rightarrow> ''Word goal cannot exceed '' @ toLocaleString 50000 @ '' words''
      | Time \<Rightarrow> ''Time goal cannot exceed 480 minutes (8 hours)'')"

text \<open>
  Every live timer of the event loop is one whose handle the session holds: the tick
  timer under \<open>timerInterval\<close>, the autosave timer under \<open>autoSaveInterval\<close>.
\<close>

definition timersOwned :: "world \<Rightarrow> bool" where
  "timersOwned w \<longleftrightarrow>
     list_all (\<lambda>(i, cb).
         (cb = TickTimer \<and> timerInterval (session w) = Some i) \<or>
         (cb = AutoSaveTimer \<and> autoSaveInterval (session w) = Some i))
       (intervals w)"

text \<open>The one-minute session after the tick at clock reading 167000, which reaches its goal.\<close>

definition oneMinuteReached :: world where
  "oneMinuteReached = tick 167000 oneMinuteSession"

text \<open>The condition under which a text change fires the word goal.\<close>

definition wordGoalDue :: "world \<Rightarrow> bool" where
  "wordGoalDue w \<longleftrightarrow>
     goalType (session w) = Words \<and> \<not> goalTriggered (session w) \<and>
     goalValue (session w) \<le> int (countWords (editor w)) - startWordCount (session w)"

text \<open>
  The ten-word session after two words have been typed, and after ten; the one-minute
  session after its goal, then kept writing with two words typed.
\<close>

definition twoWordsTyped :: world where
  "twoWordsTyped = step toString (EditorInput ''a b'') tenWordSession"

definition tenWordsTyped :: world where
  "tenWordsTyped = step toString (EditorInput ''a b c d e f g h i j'') tenWordSession"

definition keptWriting :: world where
  "keptWriting = step toString (EditorInput ''more words'') (keepWriting oneMinuteReached)"

text \<open>The \<open>stats\<close> that \<open>saveAndExit\<close> sends with \<open>end-session\<close>.\<close>

definition exitStats :: "world \<Rightarrow> stats" where
  "exitStats w =
     \<lparr>words = currentWordCount (session w) - startWordCount (session w),
      duration = formatTime (elapsedSeconds (session w)),
      statsGoalType = goalType (session w),
      statsGoalValue = goalValue (session w),
      completed = goalTriggered (session w)\<rparr>"

text \<open>
  The properties of the main process that \<open>enterLockdown\<close> sets and \<open>exitLockdown\<close> and
  \<open>showCompletion\<close> reset, apart from \<open>isSessionActive\<close> and the full screen.
\<close>

definition released :: "mainProcess \<Rightarrow> bool" where
  "released m \<longleftrightarrow>
     \<not> shortcuts m \<and> \<not> lockdownInterval m \<and>
     (case mainWindow m of
        None \<Rightarrow> True
      | Some win \<Rightarrow> \<not> kiosk win \<and> \<not> alwaysOnTop win \<and> closable win \<and> minimizable win
          \<and> \<not> visibleOnAllWorkspaces win)"

text \<open>
  The ten-word session with two words typed, saved by the autosave timer, and the editor
  then emptied.
\<close>

definition emptiedAfterSave :: world where
  "emptiedAfterSave = run toString [TimerFires 2 10000, EditorInput []] twoWordsTyped"

text \<open>The phrase typed into the emergency field of the two sessions.\<close>

definition gaveUp :: world where
  "gaveUp = step toString (EmergencyInput ''i give up'') twoWordsTyped"

definition gaveUpEmptied :: world where
  "gaveUpEmptied = step toString (EmergencyInput ''i give up'') emptiedAfterSave"

text \<open>
  The lockdown as the main process holds it: whether the global shortcuts are registered
  and the focus interval runs, and the window properties that \<open>enterLockdown\<close> sets besides
  the full screen (kiosk, always on top, closable, minimizable, visible on all
  workspaces).  \<open>engaged\<close> is what \<open>enterLockdown\<close> makes of it.
\<close>

definition lockdown :: "mainProcess \<Rightarrow> bool \<times> bool \<times> (bool \<times> bool \<times> bool \<times> bool \<times> bool) option" where
  "lockdown m =
     (shortcuts m, lockdownInterval m,
      map_option (\<lambda>win. (kiosk win, alwaysOnTop win, closable win, minimizable win,
        visibleOnAllWorkspaces win)) (mainWindow m))"

definition engaged :: "bool \<times> bool \<times> (bool \<times> bool \<times> bool \<times> bool \<times> bool) option" where
  "engaged = (True, True, Some (True, True, False, False, True))"

text \<open>
  A ten-word session started with strict mode switched off, and the same session with two
  words typed.
\<close>

definition relaxedSession :: world where
  "relaxedSession = startSession toString 0 (boot\<lparr>wordGoal := ''10'', strictModeToggle := False\<rparr>)"

definition relaxedTyped :: world where
  "relaxedTyped = run toString [EditorInput ''a b''] relaxedSession"

subsection \<open>Word counting\<close>

lemma tokensFrom_nonspace:
  "\<forall>c \<in> set a. \<not> isWhiteSpace c \<Longrightarrow> tokensFrom cur (a @ b) = tokensFrom (cur @ a) b"
  by (induction a arbitrary: cur) simp_all

lemma tokensFrom_flush:
  "tokensFrom cur s = (if cur = [] then [] else [cur]) @ tokensFrom [] s"
  if "s = [] \<or> isWhiteSpace (hd s)"
  using that by (cases s) auto

lemma tokensFrom_dropWhile:
  "tokensFrom [] (dropWhile isWhiteSpace s) = tokensFrom [] s"
  by (induction s) simp_all

lemma tokensFrom_trailing:
  "\<forall>c \<in> set b. isWhiteSpace c \<Longrightarrow> tokensFrom cur (a @ b) = tokensFrom cur a"
proof (induction a arbitrary: cur)
  case Nil
  then show ?case by (induction b arbitrary: cur) auto
next
  case (Cons c a)
  then show ?case by simp
qed

lemma trim_decompose:
  "\<exists>b. dropWhile isWhiteSpace s = trim s @ b \<and> (\<forall>c \<in> set b. isWhiteSpace c)"
proof -
  let ?d = "dropWhile isWhiteSpace s"
  have "rev ?d = takeWhile isWhiteSpace (rev ?d) @ dropWhile isWhiteSpace (rev ?d)"
    by simp
  then have "?d = rev (dropWhile isWhiteSpace (rev ?d)) @ rev (takeWhile isWhiteSpace (rev ?d))"
    by (metis rev_append rev_rev_ident)
  moreover have "\<forall>c \<in> set (rev (takeWhile isWhiteSpace (rev ?d))). isWhiteSpace c"
    by (auto dest: set_takeWhileD)
  ultimately show ?thesis unfolding trim_def by blast
qed

lemma tokens_trim: "tokens (trim s) = tokens s"
proof -
  obtain b where "dropWhile isWhiteSpace s = trim s @ b" and "\<forall>c \<in> set b. isWhiteSpace c"
    using trim_decompose by blast
  then have "tokensFrom [] (trim s) = tokensFrom [] (dropWhile isWhiteSpace s)"
    by (simp add: tokensFrom_trailing)
  then show ?thesis by (simp add: tokens_def tokensFrom_dropWhile)
qed

lemma split_tokens: "filter (\<lambda>word. length word > 0) (splitWhitespace s) = tokens s"
proof (induction s rule: splitWhitespace.induct)
  case (1 s)
  let ?tok = "takeWhile (\<lambda>c. \<not> isWhiteSpace c) s"
  let ?rest = "dropWhile (\<lambda>c. \<not> isWhiteSpace c) s"
  let ?keep = "if ?tok = [] then [] else [?tok]"
  have tok: "\<forall>c \<in> set ?tok. \<not> isWhiteSpace c"
    by (auto dest: set_takeWhileD)
  have s: "tokensFrom [] s = tokensFrom ?tok ?rest"
    using tokensFrom_nonspace [OF tok, of "[]" ?rest] by simp
  show ?case
  proof (cases "?rest = []")
    case True
    have "splitWhitespace s = [?tok]"
      by (subst splitWhitespace.simps) (simp add: Let_def True)
    moreover have "tokensFrom [] s = ?keep"
      unfolding s True by simp
    ultimately show ?thesis
      by (simp add: tokens_def)
  next
    case False
    have unf: "splitWhitespace s = ?tok # splitWhitespace (dropWhile isWhiteSpace ?rest)"
      by (subst splitWhitespace.simps) (simp only: Let_def False if_False)
    from False have "isWhiteSpace (hd ?rest)"
      using hd_dropWhile [of "\<lambda>c. \<not> isWhiteSpace c" s] by simp
    then have "tokensFrom ?tok ?rest = ?keep @ tokensFrom [] ?rest"
      using tokensFrom_flush by blast
    then have "tokens s = ?keep @ tokens (dropWhile isWhiteSpace ?rest)"
      by (simp only: tokens_def s tokensFrom_dropWhile)
    moreover have "filter (\<lambda>word. length word > 0) (splitWhitespace (dropWhile isWhiteSpace ?rest))
        = tokens (dropWhile isWhiteSpace ?rest)"
      using "1.IH" [OF refl refl False] .
    moreover have "filter (\<lambda>word. length word > 0) (splitWhitespace s)
        = ?keep @ filter (\<lambda>word. length word > 0) (splitWhitespace (dropWhile isWhiteSpace ?rest))"
      unfolding unf by simp
    ultimately show ?thesis by (simp only:)
  qed
qed

lemma tokens_whitespace: "\<forall>c \<in> set s. isWhiteSpace c \<Longrightarrow> tokens s = []"
  unfolding tokens_def by (induction s) simp_all

lemma trim_Nil_iff: "trim s = [] \<longleftrightarrow> (\<forall>c \<in> set s. isWhiteSpace c)"
proof
  assume "trim s = []"
  then have "dropWhile isWhiteSpace (rev (dropWhile isWhiteSpace s)) = []"
    by (simp add: trim_def)
  then have all: "\<forall>c \<in> set (dropWhile isWhiteSpace s). isWhiteSpace c"
    using dropWhile_eq_Nil_conv [of isWhiteSpace "rev (dropWhile isWhiteSpace s)"] by simp
  have "dropWhile isWhiteSpace s = []"
  proof (rule ccontr)
    assume ne: "dropWhile isWhiteSpace s \<noteq> []"
    then have "\<not> isWhiteSpace (hd (dropWhile isWhiteSpace s))"
      using hd_dropWhile [of isWhiteSpace s] by blast
    with ne all show False by (metis hd_in_set)
  qed
  then show "\<forall>c \<in> set s. isWhiteSpace c"
    using dropWhile_eq_Nil_conv [of isWhiteSpace s] by blast
next
  assume "\<forall>c \<in> set s. isWhiteSpace c"
  then have empty: "dropWhile isWhiteSpace s = []"
    using dropWhile_eq_Nil_conv [of isWhiteSpace s] by blast
  show "trim s = []" unfolding trim_def empty by simp
qed

lemma countWords_tokens: "countWords s = length (tokens s)"
proof (cases "trim s = []")
  case True
  then show ?thesis
    by (simp add: countWords_def trim_Nil_iff tokens_whitespace)
next
  case False
  then have "s \<noteq> []" by (auto simp: trim_def)
  with False have "countWords s
      = length (filter (\<lambda>word. length word > 0) (splitWhitespace (trim s)))"
    unfolding countWords_def by simp
  then show ?thesis
    unfolding split_tokens tokens_trim .
qed

lemma getWordCount_tokens: "getWordCount s = length (tokens s)"
proof (cases "trim s = []")
  case True
  then show ?thesis
    by (simp add: getWordCount_def trim_Nil_iff tokens_whitespace)
next
  case False
  then have "getWordCount s
      = length (filter (\<lambda>word. length word > 0) (splitWhitespace (trim s)))"
    unfolding getWordCount_def Let_def by simp
  then show ?thesis
    unfolding split_tokens tokens_trim .
qed

lemma tokensFrom_split:
  "isWhiteSpace c \<Longrightarrow> tokensFrom cur (a @ c # b) = tokensFrom cur a @ tokensFrom [] b"
  by (induction a arbitrary: cur) simp_all

lemma tokens_single:
  "t \<noteq> [] \<Longrightarrow> \<forall>c \<in> set t. \<not> isWhiteSpace c \<Longrightarrow> tokens t = [t]"
  using tokensFrom_nonspace [of t "[]" "[]"] by (simp add: tokens_def)

text \<open>
  C9.  \<open>countWords\<close> counts the maximal runs of characters that are not white space
  (the tokens left when the text is split at runs of white space and the empty pieces
  are dropped), and so does \<open>getWordCount\<close> of the prototype.  A piece without white
  space is one word, white space between two texts adds their counts, the empty string
  and a text of white space only have no words, and the text \<open>a b\tc\n\nd\<close> has four.
\<close>

theorem countWords_splits_on_whitespace_runs:
  "countWords text = length (tokens text)
   \<and> getWordCount text = length (tokens text)
   \<and> (text \<noteq> [] \<and> (\<forall>c \<in> set text. \<not> isWhiteSpace c) \<longrightarrow> countWords text = 1)
   \<and> (isWhiteSpace sep \<longrightarrow> countWords (text @ sep # rest) = countWords text + countWords rest)
   \<and> countWords [] = 0
   \<and> ((\<forall>c \<in> set text. isWhiteSpace c) \<longrightarrow> countWords text = 0)
   \<and> countWords (''a b'' @ [CHR 0x09] @ ''c'' @ [CHR 0x0A, CHR 0x0A] @ ''d'') = 4"
proof (intro conjI impI)
  show "countWords text = length (tokens text)"
    by (rule countWords_tokens)
  show "getWordCount text = length (tokens text)"
    by (rule getWordCount_tokens)
  show "countWords text = 1" if "text \<noteq> [] \<and> (\<forall>c \<in> set text. \<not> isWhiteSpace c)"
    using that by (simp add: countWords_tokens tokens_single)
  show "countWords (text @ sep # rest) = countWords text + countWords rest" if "isWhiteSpace sep"
    using that by (simp add: countWords_tokens tokens_def tokensFrom_split)
  show "countWords [] = 0"
    by (simp add: countWords_def)
  show "countWords text = 0" if "\<forall>c \<in> set text. isWhiteSpace c"
    using that by (simp add: countWords_tokens tokens_whitespace)
  show "countWords (''a b'' @ [CHR 0x09] @ ''c'' @ [CHR 0x0A, CHR 0x0A] @ ''d'') = 4"
    by (simp add: countWords_tokens tokens_def isWhiteSpace_def)
qed

theorem countWords_splits_on_whitespace_runs_witness:
  "list_all isWhiteSpace ''   '' \<and> countWords ''   '' = 0
   \<and> list_all isWhiteSpace [CHR 0xA0, CHR 0x09] \<and> countWords [CHR 0xA0, CHR 0x09] = 0
   \<and> isWhiteSpace (CHR 0xA0) \<and> countWords (''a'' @ CHR 0xA0 # ''b'') = 2
   \<and> isWhiteSpace (CHR '' '') \<and> countWords (''   '' @ CHR '' '' # ''two words'') = 2
   \<and> list_all (\<lambda>c. \<not> isWhiteSpace c) ''word'' \<and> countWords ''word'' = 1"
  using countWords_splits_on_whitespace_runs [of "''   ''" "CHR '' ''" "''two words''"]
    countWords_splits_on_whitespace_runs [of "[CHR 0xA0, CHR 0x09]" "CHR '' ''" "[]"]
    countWords_splits_on_whitespace_runs [of "''a''" "CHR 0xA0" "''b''"]
    countWords_splits_on_whitespace_runs [of "''b''" "CHR 0xA0" "[]"]
    countWords_splits_on_whitespace_runs [of "''word''" "CHR '' ''" "[]"]
    countWords_splits_on_whitespace_runs [of "''two words''" "CHR '' ''" "[]"]
  by (simp add: isWhiteSpace_def tokens_def)

subsection \<open>Starting a session\<close>

lemma beginSession_eq:
  "beginSession rawValue now w =
     w\<lparr>session := (session w)
          \<lparr>goalValue := rawValue, strictMode := strictModeToggle w,
           startWordCount := int (countWords (currentDraft w)),
           currentWordCount := int (countWords (currentDraft w)),
           startTime := Some now, elapsedSeconds := 0, active := True,
           timerInterval := Some (nextHandle w),
           autoSaveInterval := Some (nextHandle w + 1)\<rparr>,
       editor := currentDraft w,
       invoked := invoked w @ [''start-session''],
       main := start_session
          \<lparr>configGoalType = goalType (session w), configGoalValue = rawValue,
           configStrictMode = strictModeToggle w\<rparr> (main w),
       screen := Writing,
       intervals := intervals w @ [(nextHandle w, TickTimer), (nextHandle w + 1, AutoSaveTimer)],
       nextHandle := nextHandle w + 2\<rparr>"
  by (simp add: beginSession_def setInterval_def focusWriter_startSession_def invoke_def Let_def)

lemma toString_bounds:
  "toString 10 = ''10''" "toString 1 = ''1''" "toString 480 = ''480''"
  by (simp_all add: toString_def digitsOf.simps)

lemma toString_50000: "toString 50000 = ''50000''"
  by (simp add: toString_def digitsOf.simps)

lemma startSession_cases:
  "startSession loc now w =
     (case parseInt (goalInput w) of
        None \<Rightarrow> w\<lparr>toast := Some (tooSmallMessage (goalType (session w)))\<rparr>
      | Some n \<Rightarrow>
          if n < lowerBound (goalType (session w))
          then w\<lparr>toast := Some (tooSmallMessage (goalType (session w)))\<rparr>
          else if upperBound (goalType (session w)) < n
          then w\<lparr>toast := Some (tooLargeMessage loc (goalType (session w)))\<rparr>
          else beginSession n now w)"
  by (cases "goalType (session w)")
    (simp_all add: startSession_def goalInput_def lowerBound_def upperBound_def
      tooSmallMessage_def tooLargeMessage_def showValidationError_def toString_bounds
      split: option.splits)

lemma startSession_nan:
  "parseInt (goalInput w) = None \<Longrightarrow>
     startSession loc now w = w\<lparr>toast := Some (tooSmallMessage (goalType (session w)))\<rparr>"
  by (simp add: startSession_cases)

lemma startSession_small:
  "parseInt (goalInput w) = Some n \<Longrightarrow> n < lowerBound (goalType (session w)) \<Longrightarrow>
     startSession loc now w = w\<lparr>toast := Some (tooSmallMessage (goalType (session w)))\<rparr>"
  by (simp add: startSession_cases)

lemma startSession_large:
  "parseInt (goalInput w) = Some n \<Longrightarrow> upperBound (goalType (session w)) < n \<Longrightarrow>
     startSession loc now w = w\<lparr>toast := Some (tooLargeMessage loc (goalType (session w)))\<rparr>"
proof -
  assume n: "parseInt (goalInput w) = Some n" and large: "upperBound (goalType (session w)) < n"
  have "lowerBound (goalType (session w)) \<le> upperBound (goalType (session w))"
    by (cases "goalType (session w)") (simp_all add: lowerBound_def upperBound_def)
  with large have "\<not> n < lowerBound (goalType (session w))"
    by simp
  with n large show ?thesis
    by (simp add: startSession_cases)
qed

lemma startSession_ok:
  "parseInt (goalInput w) = Some n \<Longrightarrow> lowerBound (goalType (session w)) \<le> n \<Longrightarrow>
     n \<le> upperBound (goalType (session w)) \<Longrightarrow>
     startSession loc now w = beginSession n now w"
  by (simp add: startSession_cases)

lemma startSession_rejects:
  assumes "phase w = Idle"
    and "\<not> (\<exists>n. parseInt (goalInput w) = Some n \<and> lowerBound (goalType (session w)) \<le> n
                 \<and> n \<le> upperBound (goalType (session w)))"
  shows "phase (startSession loc now w) = Idle"
    and "\<exists>message. startSession loc now w = w\<lparr>toast := Some message\<rparr>"
proof -
  have idle: "phase (w\<lparr>toast := Some message\<rparr>) = Idle" for message
    using assms(1) by (auto simp: phase_def split: if_splits)
  have "\<exists>message. startSession loc now w = w\<lparr>toast := Some message\<rparr>"
  proof (cases "parseInt (goalInput w)")
    case None
    show ?thesis
      by (rule exI) (rule startSession_nan [OF None])
  next
    case (Some m)
    with assms(2) have "m < lowerBound (goalType (session w)) \<or> upperBound (goalType (session w)) < m"
      by auto
    then show ?thesis
    proof
      assume "m < lowerBound (goalType (session w))"
      then show ?thesis
        by - (rule exI, rule startSession_small [OF Some])
    next
      assume "upperBound (goalType (session w)) < m"
      then show ?thesis
        by - (rule exI, rule startSession_large [OF Some])
    qed
  qed
  then obtain message where eq: "startSession loc now w = w\<lparr>toast := Some message\<rparr>" ..
  show "phase (startSession loc now w) = Idle"
    unfolding eq by (rule idle)
  show "\<exists>message. startSession loc now w = w\<lparr>toast := Some message\<rparr>"
    by (rule exI) (rule eq)
qed

lemma startSession_accepts:
  assumes "parseInt (goalInput w) = Some n" and "lowerBound (goalType (session w)) \<le> n"
    and "n \<le> upperBound (goalType (session w))"
  shows "phase (startSession loc now w) = Active"
    and "goalValue (session (startSession loc now w)) = n"
  unfolding startSession_ok [OF assms] by (simp_all add: beginSession_eq phase_def)

text \<open>
  C3.  From the idle state \<open>startSession\<close> starts a session exactly when the goal field
  parses (by \<open>parseInt\<close>) as an integer within the bounds of the goal type, 10 to 50000
  words or 1 to 480 minutes, and the parsed number becomes the goal.  Otherwise nothing
  changes but the toast: it shows the message of the lower bound when the field does not
  parse or is below the bound, and the message of the upper bound when it is above; the
  session record, the timers, the main process and the documents folder stay as they
  were.
\<close>

theorem startSession_validates_goal:
  assumes "phase w = Idle"
  shows "(phase (startSession loc now w) = Active \<longleftrightarrow>
            (\<exists>n. parseInt (goalInput w) = Some n \<and> lowerBound (goalType (session w)) \<le> n
                 \<and> n \<le> upperBound (goalType (session w))))
     \<and> (phase (startSession loc now w) = Active \<longrightarrow>
            parseInt (goalInput w) = Some (goalValue (session (startSession loc now w))))
     \<and> (case parseInt (goalInput w) of
           None \<Rightarrow>
             startSession loc now w = w\<lparr>toast := Some (tooSmallMessage (goalType (session w)))\<rparr>
         | Some n \<Rightarrow>
             (n < lowerBound (goalType (session w)) \<longrightarrow>
                startSession loc now w
                  = w\<lparr>toast := Some (tooSmallMessage (goalType (session w)))\<rparr>) \<and>
             (upperBound (goalType (session w)) < n \<longrightarrow>
                startSession loc now w
                  = w\<lparr>toast := Some (tooLargeMessage loc (goalType (session w)))\<rparr>))
     \<and> (phase (startSession loc now w) \<noteq> Active \<longrightarrow>
            phase (startSession loc now w) = Idle
            \<and> (\<exists>message. startSession loc now w = w\<lparr>toast := Some message\<rparr>))"
proof (intro conjI)
  let ?accepted = "\<exists>n. parseInt (goalInput w) = Some n \<and> lowerBound (goalType (session w)) \<le> n
                 \<and> n \<le> upperBound (goalType (session w))"
  show iff: "phase (startSession loc now w) = Active \<longleftrightarrow> ?accepted"
  proof
    assume "phase (startSession loc now w) = Active"
    then have "phase (startSession loc now w) \<noteq> Idle"
      by simp
    then show ?accepted
      using startSession_rejects(1) [OF assms, of loc now] by blast
  next
    assume ?accepted
    then show "phase (startSession loc now w) = Active"
      using startSession_accepts(1) [of w _ loc now] by blast
  qed
  show "phase (startSession loc now w) = Active \<longrightarrow>
          parseInt (goalInput w) = Some (goalValue (session (startSession loc now w)))"
  proof
    assume "phase (startSession loc now w) = Active"
    with iff obtain n where n: "parseInt (goalInput w) = Some n"
        "lowerBound (goalType (session w)) \<le> n" "n \<le> upperBound (goalType (session w))"
      by blast
    show "parseInt (goalInput w) = Some (goalValue (session (startSession loc now w)))"
      unfolding startSession_accepts(2) [OF n] by (rule n(1))
  qed
  show "case parseInt (goalInput w) of
           None \<Rightarrow>
             startSession loc now w = w\<lparr>toast := Some (tooSmallMessage (goalType (session w)))\<rparr>
         | Some n \<Rightarrow>
             (n < lowerBound (goalType (session w)) \<longrightarrow>
                startSession loc now w
                  = w\<lparr>toast := Some (tooSmallMessage (goalType (session w)))\<rparr>) \<and>
             (upperBound (goalType (session w)) < n \<longrightarrow>
                startSession loc now w
                  = w\<lparr>toast := Some (tooLargeMessage loc (goalType (session w)))\<rparr>)"
  proof (cases "parseInt (goalInput w)")
    case None
    show ?thesis
      unfolding None option.case by (rule startSession_nan [OF None])
  next
    case (Some m)
    show ?thesis
      unfolding Some option.case
      by (intro conjI impI) (erule startSession_small [OF Some], erule startSession_large [OF Some])
  qed
  show "phase (startSession loc now w) \<noteq> Active \<longrightarrow>
          phase (startSession loc now w) = Idle
          \<and> (\<exists>message. startSession loc now w = w\<lparr>toast := Some message\<rparr>)"
    using iff startSession_rejects [OF assms, of loc now] by blast
qed

lemma boot_facts:
  "phase boot = Idle" "goalType (session boot) = Words"
  "goalInput (boot\<lparr>wordGoal := text\<rparr>) = text" "goalInput boot = ''500''"
  "phase (boot\<lparr>wordGoal := text\<rparr>) = Idle"
  "goalType (session (boot\<lparr>wordGoal := text\<rparr>)) = Words"
  by (simp_all add: boot_def initialSession_def phase_def goalInput_def)

lemma parseInt_examples:
  "parseInt ''500'' = Some 500" "parseInt ''many'' = None" "parseInt [] = None"
  "parseInt ''9'' = Some 9" "parseInt ''50001'' = Some 50001"
  by (simp_all add: parseInt_def isWhiteSpace_def isDigit_def digitValue_def digitsValue_def
      Let_def)

theorem startSession_validates_goal_witness:
  "phase boot = Idle
   \<and> parseInt (goalInput boot) = Some 500
   \<and> phase (startSession toString 0 boot) = Active
   \<and> goalValue (session (startSession toString 0 boot)) = 500
   \<and> parseInt (goalInput (boot\<lparr>wordGoal := ''many''\<rparr>)) = None
   \<and> startSession toString 0 (boot\<lparr>wordGoal := ''many''\<rparr>)
       = boot\<lparr>wordGoal := ''many'', toast := Some ''Word goal must be at least 10 words''\<rparr>
   \<and> parseInt (goalInput (boot\<lparr>wordGoal := ''50001''\<rparr>)) = Some 50001
   \<and> startSession toString 0 (boot\<lparr>wordGoal := ''50001''\<rparr>)
       = boot\<lparr>wordGoal := ''50001'', toast := Some ''Word goal cannot exceed 50000 words''\<rparr>"
proof -
  note accept = startSession_validates_goal [OF boot_facts(1), of toString 0]
  note reject = startSession_validates_goal
    [OF boot_facts(5), where text1 = "''many''" and loc = toString and now = 0]
  note exceed = startSession_validates_goal
    [OF boot_facts(5), where text1 = "''50001''" and loc = toString and now = 0]
  have started: "phase (startSession toString 0 boot) = Active"
    using accept [THEN conjunct1]
    by (simp add: boot_facts parseInt_examples lowerBound_def upperBound_def)
  have goal: "goalValue (session (startSession toString 0 boot)) = 500"
    using accept [THEN conjunct2, THEN conjunct1] started
    by (simp add: boot_facts parseInt_examples)
  have rejected: "startSession toString 0 (boot\<lparr>wordGoal := ''many''\<rparr>)
      = boot\<lparr>wordGoal := ''many'', toast := Some ''Word goal must be at least 10 words''\<rparr>"
    using reject [THEN conjunct2, THEN conjunct2, THEN conjunct1]
    by (simp add: boot_facts parseInt_examples tooSmallMessage_def)
  have exceeded: "startSession toString 0 (boot\<lparr>wordGoal := ''50001''\<rparr>)
      = boot\<lparr>wordGoal := ''50001'', toast := Some ''Word goal cannot exceed 50000 words''\<rparr>"
    using exceed [THEN conjunct2, THEN conjunct2, THEN conjunct1]
    by (simp add: boot_facts parseInt_examples tooLargeMessage_def upperBound_def toString_50000)
  show ?thesis
    unfolding started goal rejected exceeded
    by (simp add: boot_facts parseInt_examples)
qed

subsection \<open>The goal latch\<close>

lemma goalReached_session [simp]:
  "session (goalReached w) = (session w)\<lparr>active := False, goalCompleted := True\<rparr>"
  by (simp add: goalReached_def autoSave_def clearInterval_def focusWriter_saveContent_def
      invoke_def Let_def)

lemma goalReached_calls [simp]:
  "goalReachedCalls (goalReached w) = goalReachedCalls w + 1"
  by (simp add: goalReached_def autoSave_def clearInterval_def focusWriter_saveContent_def
      invoke_def Let_def)

lemma autoSave_session [simp]: "session (autoSave w) = session w"
  by (simp add: autoSave_def focusWriter_saveContent_def invoke_def Let_def)

lemma autoSave_calls [simp]: "goalReachedCalls (autoSave w) = goalReachedCalls w"
  by (simp add: autoSave_def focusWriter_saveContent_def invoke_def Let_def)

lemma percent_full: "min 100 (x * 100) = (100::real) \<longleftrightarrow> 1 \<le> x"
  by (auto simp: min_def)

lemma ratio_full: "0 < b \<Longrightarrow> 1 \<le> real_of_int a / real_of_int b \<longleftrightarrow> b \<le> a"
  by (simp add: pos_le_divide_eq)

lemma words_full:
  "0 < g \<Longrightarrow> min 100 (real_of_int (max 0 d) / real_of_int g * 100) = 100 \<longleftrightarrow> g \<le> d"
  unfolding percent_full by (simp only: ratio_full) auto

lemma progress_words:
  "goalType s = Words \<Longrightarrow> 0 < goalValue s \<Longrightarrow>
     progress s = 100 \<longleftrightarrow> goalValue s \<le> currentWordCount s - startWordCount s"
  using words_full [of "goalValue s" "currentWordCount s - startWordCount s"]
  by (simp add: progress_def Let_def)

lemma time_full:
  "0 < g \<Longrightarrow> min 100 (real_of_int e / real_of_int (g * 60) * 100) = 100 \<longleftrightarrow> g * 60 \<le> e"
  unfolding percent_full by (rule ratio_full) simp

lemma progress_time:
  "goalType s = Time \<Longrightarrow> 0 < goalValue s \<Longrightarrow>
     progress s = 100 \<longleftrightarrow> goalValue s * 60 \<le> elapsedSeconds s"
  using time_full [of "goalValue s" "elapsedSeconds s"]
  by (simp add: progress_def Let_def)

lemma validGoal_pos: "validGoal s \<Longrightarrow> 0 < goalValue s"
  by (auto simp: validGoal_def split: if_splits)


lemma tick_session:
  "session (tick now w) =
     (let e = (now - (case startTime (session w) of None \<Rightarrow> 0 | Some t \<Rightarrow> t)) div 1000;
          s = (session w)\<lparr>elapsedSeconds := e\<rparr>
      in if goalType s = Time \<and> \<not> goalTriggered s \<and> goalValue s * 60 \<le> e
         then s\<lparr>goalTriggered := True, active := False, goalCompleted := True\<rparr> else s)"
  by (simp add: tick_def Let_def)

lemma tick_calls:
  "goalReachedCalls (tick now w) =
     (let e = (now - (case startTime (session w) of None \<Rightarrow> 0 | Some t \<Rightarrow> t)) div 1000
      in if goalType (session w) = Time \<and> \<not> goalTriggered (session w)
            \<and> goalValue (session w) * 60 \<le> e
         then goalReachedCalls w + 1 else goalReachedCalls w)"
  by (simp add: tick_def Let_def)

lemma handleEditorInput_session:
  "session (handleEditorInput w) =
     (let s = (session w)\<lparr>currentWordCount := int (countWords (editor w))\<rparr>
      in if goalType s = Words \<and> \<not> goalTriggered s
            \<and> goalValue s \<le> currentWordCount s - startWordCount s
         then s\<lparr>goalTriggered := True, active := False, goalCompleted := True\<rparr> else s)"
  by (simp add: handleEditorInput_def Let_def)

lemma handleEditorInput_calls:
  "goalReachedCalls (handleEditorInput w) =
     (if goalType (session w) = Words \<and> \<not> goalTriggered (session w)
         \<and> goalValue (session w) \<le> int (countWords (editor w)) - startWordCount (session w)
      then goalReachedCalls w + 1 else goalReachedCalls w)"
  by (simp add: handleEditorInput_def Let_def)

lemma step_session_event:
  assumes "sessionEvent ev" and "0 < goalValue (session w)"
  shows "goalType (session (step loc ev w)) = goalType (session w)"
    and "goalValue (session (step loc ev w)) = goalValue (session w)"
    and "\<not> goalTriggered (session w) \<and> fractionFull ev w \<Longrightarrow>
           goalTriggered (session (step loc ev w)) \<and>
           goalReachedCalls (step loc ev w) = goalReachedCalls w + 1 \<and>
           \<not> active (session (step loc ev w)) \<and> goalCompleted (session (step loc ev w))"
    and "\<not> (\<not> goalTriggered (session w) \<and> fractionFull ev w) \<Longrightarrow>
           goalTriggered (session (step loc ev w)) = goalTriggered (session w) \<and>
           goalReachedCalls (step loc ev w) = goalReachedCalls w \<and>
           active (session (step loc ev w)) = active (session w) \<and>
           goalCompleted (session (step loc ev w)) = goalCompleted (session w)"
proof -
  note defs = step_def fractionFull_def tick_session tick_calls handleEditorInput_session
    handleEditorInput_calls checkEmergencyPhrase_def emergencyPhrase_def
    handleGlobalKeydown_def showEmergencyModal_def windowClose_def Let_def
    progress_words progress_time
  show "goalType (session (step loc ev w)) = goalType (session w)"
    using assms by (cases ev) (auto simp: defs split: option.splits callback.splits)
  show "goalValue (session (step loc ev w)) = goalValue (session w)"
    using assms by (cases ev) (auto simp: defs split: option.splits callback.splits)
  show "goalTriggered (session (step loc ev w)) \<and>
           goalReachedCalls (step loc ev w) = goalReachedCalls w + 1 \<and>
           \<not> active (session (step loc ev w)) \<and> goalCompleted (session (step loc ev w))"
    if "\<not> goalTriggered (session w) \<and> fractionFull ev w"
    using assms that by (cases ev) (auto simp: defs split: option.splits callback.splits)
  show "goalTriggered (session (step loc ev w)) = goalTriggered (session w) \<and>
           goalReachedCalls (step loc ev w) = goalReachedCalls w \<and>
           active (session (step loc ev w)) = active (session w) \<and>
           goalCompleted (session (step loc ev w)) = goalCompleted (session w)"
    if "\<not> (\<not> goalTriggered (session w) \<and> fractionFull ev w)"
    using assms that by (cases ev) (auto simp: defs split: option.splits callback.splits)
qed


lemma run_session_events:
  assumes "0 < goalValue (session w)" and "list_all sessionEvent evs"
  shows "goalReachedCalls (run loc evs w) =
           goalReachedCalls w +
           (if \<not> goalTriggered (session w) \<and> fractionFullDuring loc evs w then 1 else 0)
         \<and> goalTriggered (session (run loc evs w)) =
           (goalTriggered (session w) \<or> fractionFullDuring loc evs w)
         \<and> active (session (run loc evs w)) =
           (if \<not> goalTriggered (session w) \<and> fractionFullDuring loc evs w then False
            else active (session w))
         \<and> goalCompleted (session (run loc evs w)) =
           (if \<not> goalTriggered (session w) \<and> fractionFullDuring loc evs w then True
            else goalCompleted (session w))"
  using assms
proof (induction evs arbitrary: w)
  case Nil
  then show ?case by simp
next
  case (Cons ev evs)
  let ?w = "step loc ev w"
  from Cons.prems have ev: "sessionEvent ev" and evs: "list_all sessionEvent evs"
    by simp_all
  note st = step_session_event [OF ev Cons.prems(1), of loc]
  have pos: "0 < goalValue (session ?w)"
    using st(2) Cons.prems(1) by simp
  note ih = Cons.IH [OF pos evs]
  show ?case
  proof (cases "\<not> goalTriggered (session w) \<and> fractionFull ev w")
    case True
    with st(3) ih show ?thesis by simp
  next
    case False
    with st(4) ih show ?thesis by auto
  qed
qed

text \<open>
  C1.  In an active session with a valid goal whose latch is not yet set, whatever
  sequence of timer, editing, key and close events follows (any events that neither end
  the session nor re-arm the latch), \<open>goalReached\<close> is called exactly once if some event
  brings the goal fraction to 1.0 (a text change for a word goal, a tick for a time
  goal) and never otherwise: the first such event sets the latch and moves the session
  from Active to GoalReached, and no later event fires again, also when the word count
  dips below the threshold and rises again.
\<close>

theorem goal_reached_fires_exactly_once:
  assumes "validGoal (session w)" and "phase w = Active"
    and "\<not> goalTriggered (session w)" and "list_all sessionEvent evs"
  shows "goalReachedCalls (run loc evs w) =
           goalReachedCalls w + (if fractionFullDuring loc evs w then 1 else 0)
         \<and> goalTriggered (session (run loc evs w)) = fractionFullDuring loc evs w
         \<and> phase (run loc evs w) = (if fractionFullDuring loc evs w then GoalReached else Active)"
proof -
  from assms(2) have "active (session w)"
    by (auto simp: phase_def split: if_splits)
  with run_session_events [OF validGoal_pos [OF assms(1)] assms(4), of loc] assms(3)
  show ?thesis by (simp add: phase_def)
qed

lemma step_EditorInput_session:
  "session (step loc (EditorInput text) w) =
     (let s = (session w)\<lparr>currentWordCount := int (countWords text)\<rparr>
      in if goalType s = Words \<and> \<not> goalTriggered s
            \<and> goalValue s \<le> currentWordCount s - startWordCount s
         then s\<lparr>goalTriggered := True, active := False, goalCompleted := True\<rparr> else s)"
  by (simp add: step_def handleEditorInput_session)

lemma tenWordSession_session:
  "session tenWordSession =
     \<lparr>active = True, goalType = Words, goalValue = 10, strictMode = True,
      startTime = Some 0, startWordCount = 0, currentWordCount = 0,
      timerInterval = Some 1, autoSaveInterval = Some 2, elapsedSeconds = 0,
      goalTriggered = False, goalCompleted = False\<rparr>"
  by (simp add: tenWordSession_def startSession_def beginSession_def boot_def parseInt_def
      isWhiteSpace_def isDigit_def digitValue_def digitsValue_def Let_def setInterval_def
      focusWriter_startSession_def invoke_def initialSession_def countWords_def)

lemma tenWordSession_calls: "goalReachedCalls tenWordSession = 0"
  by (simp add: tenWordSession_def startSession_def beginSession_def boot_def parseInt_def
      isWhiteSpace_def isDigit_def digitValue_def digitsValue_def Let_def setInterval_def
      focusWriter_startSession_def invoke_def initialSession_def countWords_def)

theorem goal_reached_fires_exactly_once_witness:
  "validGoal (session tenWordSession)
   \<and> phase tenWordSession = Active
   \<and> goalReachedCalls tenWordSession = 0
   \<and> goalReachedCalls (run toString
        [EditorInput ''a b c d e f g h i'', EditorInput ''a b c d e f g h i j'',
         EditorInput ''a'', EditorInput ''a b c d e f g h i j'']
        tenWordSession) = 1"
  using goal_reached_fires_exactly_once
    [of tenWordSession
        "[EditorInput ''a b c d e f g h i'', EditorInput ''a b c d e f g h i j'',
          EditorInput ''a'', EditorInput ''a b c d e f g h i j'']" toString]
  by (simp add: tenWordSession_session tenWordSession_calls validGoal_def phase_def
      fractionFull_def progress_def step_EditorInput_session countWords_tokens tokens_def
      isWhiteSpace_def Let_def)

subsection \<open>The tick\<close>

lemma not_exposed_goalReached: "\<not> exposed ''goalReached''"
  by (simp add: exposed_def preload_def)

lemma goalReached_eq:
  "goalReached w =
     w\<lparr>goalReachedCalls := goalReachedCalls w + 1,
       session := (session w)\<lparr>active := False, goalCompleted := True\<rparr>,
       intervals := filter (\<lambda>(i, cb). Some i \<noteq> autoSaveInterval (session w)) (intervals w),
       invoked := invoked w @ [''save-content''],
       disk := saveContent (editor w) (disk w),
       console := console w @ [ReleaseFailed],
       goalBanner := True\<rparr>"
  by (simp add: goalReached_def autoSave_def clearInterval_def focusWriter_saveContent_def
      invoke_def Let_def not_exposed_goalReached)

lemma tick_eq:
  "tick now w =
     (let logged = w\<lparr>console := console w @
            (if 5 < actualElapsed now w - elapsedSeconds (session w)
             then [TimeJump (actualElapsed now w - elapsedSeconds (session w))] else [])\<rparr>
      in if timeGoalDue now w
         then goalReached (logged\<lparr>session := (session w)
                \<lparr>elapsedSeconds := actualElapsed now w, goalTriggered := True\<rparr>\<rparr>)
         else logged\<lparr>session := (session w)\<lparr>elapsedSeconds := actualElapsed now w\<rparr>\<rparr>)"
proof -
  let ?e = "(now - (case startTime (session w) of None \<Rightarrow> 0 | Some t \<Rightarrow> t)) div 1000"
  consider (a) "5 < ?e - elapsedSeconds (session w)"
      "goalType (session w) = Time" "\<not> goalTriggered (session w)" "goalValue (session w) * 60 \<le> ?e"
    | (b) "5 < ?e - elapsedSeconds (session w)"
      "\<not> (goalType (session w) = Time \<and> \<not> goalTriggered (session w) \<and> goalValue (session w) * 60 \<le> ?e)"
    | (c) "\<not> 5 < ?e - elapsedSeconds (session w)"
      "goalType (session w) = Time" "\<not> goalTriggered (session w)" "goalValue (session w) * 60 \<le> ?e"
    | (d) "\<not> 5 < ?e - elapsedSeconds (session w)"
      "\<not> (goalType (session w) = Time \<and> \<not> goalTriggered (session w) \<and> goalValue (session w) * 60 \<le> ?e)"
    by blast
  then show ?thesis
  proof cases
    case a
    then show ?thesis
      unfolding actualElapsed_def timeGoalDue_def tick_def Let_def by simp
  next
    case b
    then show ?thesis
      unfolding actualElapsed_def timeGoalDue_def tick_def Let_def by auto
  next
    case c
    then show ?thesis
      unfolding actualElapsed_def timeGoalDue_def tick_def Let_def by simp
  next
    case d
    then show ?thesis
      unfolding actualElapsed_def timeGoalDue_def tick_def Let_def by auto
  qed
qed

lemma tick_ignores_previous_elapsed:
  "(tick now (w\<lparr>session := (session w)\<lparr>elapsedSeconds := e\<rparr>\<rparr>))\<lparr>console := c\<rparr>
     = (tick now w)\<lparr>console := c\<rparr>"
  by (simp add: tick_eq goalReached_eq Let_def timeGoalDue_def actualElapsed_def)

lemma tick_logs_jump:
  "TimeJump d \<in> set (console (tick now w)) \<longleftrightarrow>
     TimeJump d \<in> set (console w) \<or>
     (d = actualElapsed now w - elapsedSeconds (session w) \<and> 5 < d)"
  by (auto simp: tick_eq goalReached_eq Let_def)

text \<open>
  C2.  A tick sets \<open>elapsedSeconds\<close> to the whole seconds between the start time and the
  clock reading, whatever value it held before: apart from the console the world after
  the tick does not depend on the previous value, and a gap of more than five seconds
  only adds a line to the console.  Under a time goal of \<open>m\<close> minutes the first tick at
  or after \<open>m\<close> minutes (however far after) moves the session to GoalReached with one
  call of \<open>goalReached\<close>, and a later tick does not call it again.
\<close>

theorem tick_adopts_wall_clock:
  assumes "startTime (session w) = Some T"
  shows "elapsedSeconds (session (tick now w)) = (now - T) div 1000
     \<and> (tick now (w\<lparr>session := (session w)\<lparr>elapsedSeconds := e\<rparr>\<rparr>))\<lparr>console := c\<rparr>
         = (tick now w)\<lparr>console := c\<rparr>
     \<and> (TimeJump d \<in> set (console (tick now w)) \<longleftrightarrow>
          TimeJump d \<in> set (console w) \<or>
          (d = (now - T) div 1000 - elapsedSeconds (session w) \<and> 5 < d))
     \<and> (goalType (session w) = Time \<and> validGoal (session w) \<and> phase w = Active
          \<and> \<not> goalTriggered (session w) \<and> T + goalValue (session w) * 60 * 1000 \<le> now \<longrightarrow>
          phase (tick now w) = GoalReached
          \<and> goalReachedCalls (tick now w) = goalReachedCalls w + 1
          \<and> goalReachedCalls (tick later (tick now w)) = goalReachedCalls w + 1)"
proof (intro conjI impI)
  show "elapsedSeconds (session (tick now w)) = (now - T) div 1000"
    using assms by (simp add: tick_session Let_def)
  show "(tick now (w\<lparr>session := (session w)\<lparr>elapsedSeconds := e\<rparr>\<rparr>))\<lparr>console := c\<rparr>
         = (tick now w)\<lparr>console := c\<rparr>"
    by (rule tick_ignores_previous_elapsed)
  show "TimeJump d \<in> set (console (tick now w)) \<longleftrightarrow>
          TimeJump d \<in> set (console w) \<or>
          (d = (now - T) div 1000 - elapsedSeconds (session w) \<and> 5 < d)"
    using assms tick_logs_jump [of d now w] by (simp add: actualElapsed_def)
next
  assume a: "goalType (session w) = Time \<and> validGoal (session w) \<and> phase w = Active
          \<and> \<not> goalTriggered (session w) \<and> T + goalValue (session w) * 60 * 1000 \<le> now"
  then have "goalValue (session w) * 60 * 1000 \<le> now - T"
    by simp
  then have "goalValue (session w) * 60 \<le> (now - T) div 1000"
    by linarith
  with a assms have fire: "session (tick now w) =
      (session w)\<lparr>elapsedSeconds := (now - T) div 1000,
        goalTriggered := True, active := False, goalCompleted := True\<rparr>"
    and calls: "goalReachedCalls (tick now w) = goalReachedCalls w + 1"
    by (simp_all add: tick_session tick_calls Let_def)
  from fire show "phase (tick now w) = GoalReached"
    by (simp add: phase_def)
  from calls show "goalReachedCalls (tick now w) = goalReachedCalls w + 1" .
  from fire calls show "goalReachedCalls (tick later (tick now w)) = goalReachedCalls w + 1"
    by (simp add: tick_calls [of later] Let_def)
qed

subsection \<open>The one-minute session\<close>

lemma parseInt_1: "parseInt ''1'' = Some 1"
  by (simp add: parseInt_def isWhiteSpace_def isDigit_def digitValue_def digitsValue_def Let_def)

lemma oneMinuteSession_eq:
  "oneMinuteSession =
     beginSession 1 7000 (boot\<lparr>session := initialSession\<lparr>goalType := Time\<rparr>, timeGoal := ''1''\<rparr>)"
  unfolding oneMinuteSession_def
  by (rule startSession_ok)
    (simp_all add: goalInput_def parseInt_1 lowerBound_def upperBound_def)

lemma oneMinuteSession_fields:
  "session oneMinuteSession =
     \<lparr>active = True, goalType = Time, goalValue = 1, strictMode = True,
      startTime = Some 7000, startWordCount = 0, currentWordCount = 0,
      timerInterval = Some 1, autoSaveInterval = Some 2, elapsedSeconds = 0,
      goalTriggered = False, goalCompleted = False\<rparr>"
  "intervals oneMinuteSession = [(1, TickTimer), (2, AutoSaveTimer)]"
  "nextHandle oneMinuteSession = 3"
  "invoked oneMinuteSession = [''start-session'']"
  "main oneMinuteSession =
     \<lparr>mainWindow = Some \<lparr>kiosk = True, fullScreen = True, alwaysOnTop = True,
        closable = False, minimizable = False, visibleOnAllWorkspaces = True\<rparr>,
      isSessionActive = True,
      sessionConfig = Some \<lparr>configGoalType = Time, configGoalValue = 1, configStrictMode = True\<rparr>,
      lockdownInterval = True, shortcuts = True\<rparr>"
  "disk oneMinuteSession = disk boot"
  "editor oneMinuteSession = []"
  "console oneMinuteSession = []"
  "goalReachedCalls oneMinuteSession = 0"
  by (simp_all add: oneMinuteSession_eq beginSession_eq boot_def initialSession_def
      countWords_def start_session_def enterLockdown_def)

lemma oneMinuteReached_fields:
  "session oneMinuteReached =
     \<lparr>active = False, goalType = Time, goalValue = 1, strictMode = True,
      startTime = Some 7000, startWordCount = 0, currentWordCount = 0,
      timerInterval = Some 1, autoSaveInterval = Some 2, elapsedSeconds = 160,
      goalTriggered = True, goalCompleted = True\<rparr>"
  "intervals oneMinuteReached = [(1, TickTimer)]"
  "nextHandle oneMinuteReached = 3"
  "invoked oneMinuteReached = [''start-session'', ''save-content'']"
  "main oneMinuteReached = main oneMinuteSession"
  "console oneMinuteReached = [TimeJump 160, ReleaseFailed]"
  "goalReachedCalls oneMinuteReached = 1"
  by (simp_all add: oneMinuteReached_def tick_eq goalReached_eq timeGoalDue_def
      actualElapsed_def oneMinuteSession_fields Let_def)

theorem tick_adopts_wall_clock_witness:
  "startTime (session oneMinuteSession) = Some 7000
   \<and> validGoal (session oneMinuteSession)
   \<and> phase oneMinuteSession = Active
   \<and> goalReachedCalls oneMinuteSession = 0
   \<and> elapsedSeconds (session (tick 167000 oneMinuteSession)) = 160
   \<and> TimeJump 160 \<in> set (console (tick 167000 oneMinuteSession))
   \<and> phase (tick 167000 oneMinuteSession) = GoalReached
   \<and> goalReachedCalls (tick 168000 (tick 167000 oneMinuteSession)) = 1"
  using tick_adopts_wall_clock
    [where w = oneMinuteSession and T = 7000 and now = 167000 and e = 0 and c = "[]"
       and d = 160 and later = 168000]
  by (simp add: oneMinuteSession_fields validGoal_def phase_def)

subsection \<open>The product with 1.2 in double precision\<close>

lemma bitLength_le: "n < 2 ^ k \<Longrightarrow> bitLength n \<le> k"
proof (induction k arbitrary: n)
  case 0
  then show ?case by (simp add: bitLength.simps)
next
  case (Suc k)
  then have "n div 2 < 2 ^ k" by simp
  then have "bitLength (n div 2) \<le> k" by (rule Suc.IH)
  then show ?case by (subst bitLength.simps) simp
qed

lemma roundSignificand_bounds:
  fixes n :: nat
  defines "P \<equiv> (2::nat) ^ (bitLength n - 53)"
  shows "P dvd roundSignificand n"
    and "n < roundSignificand n + P"
    and "roundSignificand n < n + P"
proof -
  let ?q = "n div P" and ?r = "n mod P"
  have P: "0 < P" by (simp add: P_def)
  have n: "n = ?q * P + ?r" by simp
  have r: "?r < P" using P by simp
  have R: "roundSignificand n =
      (if 2 * ?r > P \<or> (2 * ?r = P \<and> odd ?q) then ?q + 1 else ?q) * P"
    by (simp add: roundSignificand_def P_def Let_def)
  show "P dvd roundSignificand n"
    unfolding R by simp
  show "n < roundSignificand n + P"
  proof -
    have "?q * P \<le> roundSignificand n"
      unfolding R by simp
    with n r show ?thesis by linarith
  qed
  show "roundSignificand n < n + P"
  proof (cases "2 * ?r > P \<or> (2 * ?r = P \<and> odd ?q)")
    case True
    then have "0 < ?r" using P by auto
    moreover have "roundSignificand n = ?q * P + P"
      by (simp only: R True if_True) simp
    ultimately show ?thesis using n by linarith
  next
    case False
    have "roundSignificand n = ?q * P"
      by (simp only: R False if_False)
    then show ?thesis using n P by linarith
  qed
qed

lemma multiple_le:
  fixes a b P :: int
  assumes "0 < P" and "P dvd a" and "P dvd b" and "a < b + P"
  shows "a \<le> b"
proof -
  from assms(2,3) obtain x y where a: "a = P * x" and b: "b = P * y"
    unfolding dvd_def by blast
  from assms(4) have "P * x < P * (y + 1)"
    by (simp add: a b distrib_left)
  with assms(1) have "x < y + 1"
    by (simp add: mult_less_cancel_left_pos)
  then have "x \<le> y" by simp
  with assms(1) show ?thesis
    by (simp add: a b mult_left_mono)
qed

lemma ceilTimes1_2_exact:
  assumes "0 < g" and "g \<le> 2 ^ 32"
  shows "ceilTimes1_2 g = (6 * g + 4) div 5"
proof -
  define n where "n = nat g * 5404319552844595"
  define sh where "sh = bitLength n - 53"
  define P where "P = int (2 ^ sh)"
  define R where "R = int (roundSignificand n)"
  define N where "N = (6 * g + 4) div 5"
  have n_int: "int n = g * 5404319552844595"
    using assms(1) by (simp add: n_def)
  have "n \<le> 2 ^ 32 * 5404319552844595"
    using assms by (simp add: n_def nat_le_iff)
  also have "\<dots> < (2::nat) ^ 85"
    by simp
  finally have "bitLength n \<le> 85"
    by (rule bitLength_le)
  then have sh: "sh \<le> 32"
    by (simp add: sh_def)
  have Ppos: "0 < P"
    by (simp add: P_def)
  have "(2::nat) ^ sh \<le> 2 ^ 32"
    using sh by (intro power_increasing) simp_all
  then have Ple: "P \<le> 2 ^ 32"
    unfolding P_def by (metis of_nat_le_iff of_nat_numeral of_nat_power)
  have "(2::nat) ^ sh dvd 2 ^ 52"
    using sh by (intro le_imp_power_dvd) simp
  then have Pdvd: "P dvd 2 ^ 52"
    unfolding P_def by (metis of_nat_dvd_iff of_nat_numeral of_nat_power)
  note rb = roundSignificand_bounds [of n, folded sh_def]
  have dvdR: "P dvd R"
    unfolding P_def R_def using rb(1) by (simp only: of_nat_dvd_iff)
  have lower: "int n < R + P"
    unfolding P_def R_def using rb(2) by (metis of_nat_add of_nat_less_iff)
  have upper: "R < int n + P"
    unfolding P_def R_def using rb(3) by (metis of_nat_add of_nat_less_iff)
  have N: "6 * g \<le> 5 * N" "5 * N \<le> 6 * g + 4"
    unfolding N_def by presburger+
  have "int n \<le> N * 2 ^ 52"
    using N(1) assms(1) unfolding n_int by simp
  with upper have "R < N * 2 ^ 52 + P"
    by simp
  moreover have "P dvd N * 2 ^ 52"
    using Pdvd by simp
  ultimately have le: "R \<le> N * 2 ^ 52"
    using multiple_le [OF Ppos dvdR] by blast
  have gt: "(N - 1) * 2 ^ 52 < R"
    using lower Ple N(2) assms(2) unfolding n_int by simp
  have "(R + (2 ^ 52 - 1)) div 2 ^ 52 = N"
  proof (rule int_div_pos_eq [where r = "R + (2 ^ 52 - 1) - 2 ^ 52 * N"])
    show "R + (2 ^ 52 - 1) = 2 ^ 52 * N + (R + (2 ^ 52 - 1) - 2 ^ 52 * N)"
      by simp
    show "0 \<le> R + (2 ^ 52 - 1) - 2 ^ 52 * N"
      using gt by simp
    show "R + (2 ^ 52 - 1) - 2 ^ 52 * N < 2 ^ 52"
      using le by simp
  qed
  then show ?thesis
    using assms(1) by (simp add: ceilTimes1_2_def n_def R_def N_def)
qed

lemma ceiling_six_fifths: "(6 * g + 4) div 5 = \<lceil>real_of_int g * 1.2\<rceil>"
proof -
  have "real_of_int g * 1.2 = real_of_int (6 * g) / real_of_int 5"
    by simp
  then have "\<lceil>real_of_int g * 1.2\<rceil> = \<lceil>real_of_int (6 * g) / real_of_int 5\<rceil>"
    by (simp only:)
  also have "\<dots> = - (- (6 * g) div 5)"
    by (simp only: ceiling_divide_eq_div)
  also have "\<dots> = (6 * g + 4) div 5"
    by presburger
  finally show ?thesis by simp
qed

subsection \<open>Keep writing\<close>

lemma filter_other_handle:
  "filter (\<lambda>(i, cb). Some i \<noteq> Some h) xs = filter (\<lambda>(i, cb). i \<noteq> h) xs"
  by (induction xs) auto

lemma keepWriting_eq:
  "keepWriting w =
     w\<lparr>session := (session w)
          \<lparr>timerInterval := Some (nextHandle w),
           autoSaveInterval := Some (nextHandle w + 1),
           goalValue := (if goalType (session w) = Time then goalValue (session w) + 10
                         else ceilTimes1_2 (goalValue (session w))),
           goalTriggered := False, goalCompleted := False, active := True\<rparr>,
       goalBanner := False,
       intervals :=
         filter (\<lambda>(i, cb). Some i \<noteq> autoSaveInterval (session w))
           (filter (\<lambda>(i, cb). Some i \<noteq> timerInterval (session w)) (intervals w))
         @ [(nextHandle w, TickTimer), (nextHandle w + 1, AutoSaveTimer)],
       nextHandle := nextHandle w + 2,
       screen := Writing\<rparr>"
proof (cases "timerInterval (session w)")
  case None
  note t = this
  show ?thesis
  proof (cases "autoSaveInterval (session w)")
    case None
    with t show ?thesis
      by (simp add: keepWriting_def clearInterval_def setInterval_def Let_def)
  next
    case (Some a)
    with t show ?thesis
      by (simp add: keepWriting_def clearInterval_def setInterval_def Let_def)
  qed
next
  case (Some h)
  note t = this
  show ?thesis
  proof (cases "autoSaveInterval (session w)")
    case None
    with t show ?thesis
      by (simp add: keepWriting_def clearInterval_def setInterval_def Let_def)
  next
    case (Some a)
    with t show ?thesis
      by (simp add: keepWriting_def clearInterval_def setInterval_def Let_def)
  qed
qed


lemma keepWriting_fields:
  "session (keepWriting w) =
     (session w)
       \<lparr>timerInterval := Some (nextHandle w),
        autoSaveInterval := Some (nextHandle w + 1),
        goalValue := (if goalType (session w) = Time then goalValue (session w) + 10
                      else ceilTimes1_2 (goalValue (session w))),
        goalTriggered := False, goalCompleted := False, active := True\<rparr>"
  "intervals (keepWriting w) =
     filter (\<lambda>(i, cb). Some i \<noteq> autoSaveInterval (session w))
       (filter (\<lambda>(i, cb). Some i \<noteq> timerInterval (session w)) (intervals w))
     @ [(nextHandle w, TickTimer), (nextHandle w + 1, AutoSaveTimer)]"
  "main (keepWriting w) = main w"
  "invoked (keepWriting w) = invoked w"
  "disk (keepWriting w) = disk w"
  "goalReachedCalls (keepWriting w) = goalReachedCalls w"
  "editor (keepWriting w) = editor w"
  by (simp_all add: keepWriting_eq)

lemma owned_timers_cleared:
  assumes "timersOwned w"
  shows "filter (\<lambda>(i, cb). Some i \<noteq> autoSaveInterval (session w))
           (filter (\<lambda>(i, cb). Some i \<noteq> timerInterval (session w)) (intervals w)) = []"
proof -
  have "list_all (\<lambda>(i, cb).
         (cb = TickTimer \<and> timerInterval (session w) = Some i) \<or>
         (cb = AutoSaveTimer \<and> autoSaveInterval (session w) = Some i)) xs \<Longrightarrow>
       filter (\<lambda>(i, cb). Some i \<noteq> autoSaveInterval (session w))
           (filter (\<lambda>(i, cb). Some i \<noteq> timerInterval (session w)) xs) = []" for xs
    by (induction xs) auto
  with assms show ?thesis
    by (simp add: timersOwned_def)
qed

text \<open>
  C4, as amended.  In GoalReached, with a goal between 1 and \<open>2^32\<close> and the live timers
  those of the session, \<open>keepWriting\<close> raises a time goal by ten minutes and a word goal
  to the ceiling of 1.2 times its value, clears the latch and returns to Active, so that
  over the events that follow \<open>goalReached\<close> is called once more exactly if one of them
  brings the fraction of the new goal to 1.0.  It leaves one live tick timer and one live
  autosave timer, both new.  (The double product \<open>100 * 1.2\<close> rounds up to 120.)  It
  invokes no channel: the main process, and with it the lockdown, stays as it was, in
  strict mode as in any other, and so does the documents folder.
\<close>

theorem keepWriting_raises_goal_and_rearms:
  assumes "phase w = GoalReached"
    and "0 < goalValue (session w)" and "goalValue (session w) \<le> 2 ^ 32"
    and "timersOwned w" and "list_all sessionEvent evs"
  shows "goalValue (session (keepWriting w)) =
           (if goalType (session w) = Time then goalValue (session w) + 10
            else \<lceil>real_of_int (goalValue (session w)) * 1.2\<rceil>)
     \<and> \<not> goalTriggered (session (keepWriting w))
     \<and> phase (keepWriting w) = Active
     \<and> intervals (keepWriting w) = [(nextHandle w, TickTimer), (nextHandle w + 1, AutoSaveTimer)]
     \<and> timerInterval (session (keepWriting w)) = Some (nextHandle w)
     \<and> autoSaveInterval (session (keepWriting w)) = Some (nextHandle w + 1)
     \<and> goalReachedCalls (run loc evs (keepWriting w)) =
           goalReachedCalls w + (if fractionFullDuring loc evs (keepWriting w) then 1 else 0)
     \<and> phase (run loc evs (keepWriting w)) =
           (if fractionFullDuring loc evs (keepWriting w) then GoalReached else Active)
     \<and> main (keepWriting w) = main w
     \<and> invoked (keepWriting w) = invoked w
     \<and> disk (keepWriting w) = disk w
     \<and> ceilTimes1_2 100 = 120"
proof -
  let ?k = "keepWriting w"
  have goal: "goalValue (session ?k) =
           (if goalType (session w) = Time then goalValue (session w) + 10
            else \<lceil>real_of_int (goalValue (session w)) * 1.2\<rceil>)"
    using ceilTimes1_2_exact [OF assms(2,3)] ceiling_six_fifths [of "goalValue (session w)"]
    by (simp add: keepWriting_fields)
  have pos: "0 < goalValue (session ?k)"
  proof (cases "goalType (session w) = Time")
    case True
    with assms(2) show ?thesis by (simp add: keepWriting_fields)
  next
    case False
    have "0 < (6 * goalValue (session w) + 4) div 5"
      using assms(2) by presburger
    with False show ?thesis
      by (simp add: keepWriting_fields ceilTimes1_2_exact [OF assms(2,3)])
  qed
  have latch: "\<not> goalTriggered (session ?k)" and act: "active (session ?k)"
    by (simp_all add: keepWriting_fields)
  note after = run_session_events [OF pos assms(5), of loc]
  have timers: "intervals ?k = [(nextHandle w, TickTimer), (nextHandle w + 1, AutoSaveTimer)]"
    unfolding keepWriting_fields(2) owned_timers_cleared [OF assms(4)] by simp
  have example: "ceilTimes1_2 100 = 120"
    by (simp add: ceilTimes1_2_def roundSignificand_def bitLength.simps Let_def)
  from goal latch act after timers example show ?thesis
    by (simp add: phase_def keepWriting_fields(1,3,4,5,6))
qed


theorem keepWriting_raises_goal_and_rearms_witness:
  "phase oneMinuteReached = GoalReached
   \<and> goalValue (session oneMinuteReached) = 1
   \<and> timersOwned oneMinuteReached
   \<and> goalValue (session (keepWriting oneMinuteReached)) = 11
   \<and> phase (keepWriting oneMinuteReached) = Active
   \<and> intervals (keepWriting oneMinuteReached) = [(3, TickTimer), (4, AutoSaveTimer)]
   \<and> goalReachedCalls (run toString [TimerFires 3 668000] (keepWriting oneMinuteReached)) = 2"
  using keepWriting_raises_goal_and_rearms
    [of oneMinuteReached "[TimerFires 3 668000]" toString]
  by (simp add: oneMinuteReached_fields phase_def timersOwned_def fractionFull_def
      keepWriting_fields progress_def)

theorem keepWriting_sends_no_lockdown_request:
  "strictMode (session oneMinuteReached)
   \<and> phase oneMinuteReached = GoalReached
   \<and> invoked oneMinuteReached = [''start-session'', ''save-content'']
   \<and> invoked (keepWriting oneMinuteReached) = [''start-session'', ''save-content'']
   \<and> main (keepWriting oneMinuteReached) = main oneMinuteReached"
  by (simp add: oneMinuteReached_fields phase_def keepWriting_fields)

subsection \<open>Leaving a session\<close>

lemma formatTime_not_empty: "formatTime seconds \<noteq> []"
  by (simp add: formatTime_def Let_def)

lemma resetSession_eq:
  "resetSession w =
     w\<lparr>intervals :=
         filter (\<lambda>(i, cb). Some i \<noteq> autoSaveInterval (session w))
           (filter (\<lambda>(i, cb). Some i \<noteq> timerInterval (session w)) (intervals w)),
       session := initialSession,
       goalBanner := False\<rparr>"
  by (simp add: resetSession_def clearInterval_def Let_def)

lemma loadDraft_eq:
  "loadDraft w =
     w\<lparr>invoked := invoked w @ [''load-draft''],
       currentDraft :=
         (if load_draft (disk w) \<noteq> [] \<and> trim (load_draft (disk w)) \<noteq> []
          then load_draft (disk w) else [])\<rparr>"
  by (simp add: loadDraft_def invoke_def Let_def)

lemma focusWriter_endSession_eq:
  "focusWriter_endSession now content st w =
     w\<lparr>invoked := invoked w @ [''end-session''],
       main := releaseOnExit (main w),
       disk := (if content \<noteq> [] then archiveDraft now content st (saveContent content (disk w))
                else disk w)\<rparr>"
  by (simp add: focusWriter_endSession_def end_session_def invoke_def Let_def)

lemma focusWriter_emergencyExit_eq:
  "focusWriter_emergencyExit content w =
     w\<lparr>invoked := invoked w @ [''emergency-exit''],
       main := releaseOnExit (main w),
       disk := (if content \<noteq> [] then saveContent content (disk w) else disk w)\<rparr>"
  by (simp add: focusWriter_emergencyExit_def emergency_exit_def invoke_def Let_def)


lemma saveAndExit_eq:
  "saveAndExit now w =
     (let d = (if editor w \<noteq> []
               then archiveDraft now (editor w) (exitStats w) (saveContent (editor w) (disk w))
               else disk w)
      in w\<lparr>goalBanner := False,
           invoked := invoked w @ [''end-session'', ''load-draft'', ''load-sessions''],
           main := releaseOnExit (main w),
           disk := d,
           intervals :=
             filter (\<lambda>(i, cb). Some i \<noteq> autoSaveInterval (session w))
               (filter (\<lambda>(i, cb). Some i \<noteq> timerInterval (session w)) (intervals w)),
           session := initialSession,
           currentDraft :=
             (if load_draft d \<noteq> [] \<and> trim (load_draft d) \<noteq> [] then load_draft d else []),
           screen := Welcome\<rparr>)"
proof (cases "editor w = []")
  case True
  then show ?thesis
    by (simp add: saveAndExit_def focusWriter_endSession_eq resetSession_eq loadDraft_eq
        invoke_def Let_def)
next
  case False
  then show ?thesis
    by (simp add: saveAndExit_def focusWriter_endSession_eq resetSession_eq loadDraft_eq
        invoke_def exitStats_def Let_def)
qed

lemma emergencyExit_eq:
  "emergencyExit w =
     (let d = (if editor w \<noteq> [] then saveContent (editor w) (disk w) else disk w)
      in w\<lparr>invoked := invoked w @ [''emergency-exit'', ''load-draft''],
           main := releaseOnExit (main w),
           disk := d,
           emergencyModal := False,
           intervals :=
             filter (\<lambda>(i, cb). Some i \<noteq> autoSaveInterval (session w))
               (filter (\<lambda>(i, cb). Some i \<noteq> timerInterval (session w)) (intervals w)),
           session := initialSession,
           goalBanner := False,
           currentDraft :=
             (if load_draft d \<noteq> [] \<and> trim (load_draft d) \<noteq> [] then load_draft d else []),
           screen := Welcome\<rparr>)"
proof (cases "editor w = []")
  case True
  then show ?thesis
    by (simp add: emergencyExit_def focusWriter_emergencyExit_eq resetSession_eq loadDraft_eq
        hideEmergencyModal_def clearInterval_def Let_def cong: conj_cong)
next
  case False
  then show ?thesis
    by (simp add: emergencyExit_def focusWriter_emergencyExit_eq resetSession_eq loadDraft_eq
        hideEmergencyModal_def clearInterval_def Let_def cong: conj_cong)
qed


lemma saveAndExit_fields:
  "disk (saveAndExit now w) =
     (if editor w \<noteq> []
      then archiveDraft now (editor w) (exitStats w) (saveContent (editor w) (disk w))
      else disk w)"
  "session (saveAndExit now w) = initialSession"
  "main (saveAndExit now w) = releaseOnExit (main w)"
  "invoked (saveAndExit now w) = invoked w @ [''end-session'', ''load-draft'', ''load-sessions'']"
  by (simp_all add: saveAndExit_eq Let_def)

lemma emergencyExit_fields:
  "disk (emergencyExit w) =
     (if editor w \<noteq> [] then saveContent (editor w) (disk w) else disk w)"
  "session (emergencyExit w) = initialSession"
  "main (emergencyExit w) = releaseOnExit (main w)"
  "invoked (emergencyExit w) = invoked w @ [''emergency-exit'', ''load-draft'']"
  "intervals (emergencyExit w) =
     filter (\<lambda>(i, cb). Some i \<noteq> autoSaveInterval (session w))
       (filter (\<lambda>(i, cb). Some i \<noteq> timerInterval (session w)) (intervals w))"
  "emergencyModal (emergencyExit w) = False"
  by (simp_all add: emergencyExit_eq Let_def)

lemma archiveDraft_fields:
  "current (archiveDraft now content st d) = current d"
  "currentWrites (archiveDraft now content st d) = currentWrites d"
  "drafts (archiveDraft now content st d) =
     (drafts d)(now div 1000 \<mapsto>
       \<lparr>headerDate = now, headerWords = words st,
        headerDuration = (if duration st = [] then ''N/A'' else duration st),
        body = content\<rparr>)"
  "sessions (archiveDraft now content st d) =
     sessions d @
       [\<lparr>date = now, entryWords = words st,
         entryDuration = (if duration st = [] then None else Some (duration st)),
         entryGoalType = Some (statsGoalType st),
         entryGoalValue = (if statsGoalValue st = 0 then None else Some (statsGoalValue st)),
         entryCompleted = completed st, draftPath = now div 1000\<rparr>]"
  by (simp_all add: archiveDraft_def logSession_def Let_def)

text \<open>
  C10.  With the empty string as content the handlers of \<open>end-session\<close> and
  \<open>emergency-exit\<close> leave the documents folder as it is, and so do \<open>saveAndExit\<close> and
  \<open>emergencyExit\<close> of the renderer when the editor is empty: no draft is saved, no archive
  file written, no history entry appended.  With other content \<open>end-session\<close> writes the
  draft, the archive file and one history entry, and \<open>emergency-exit\<close> writes the draft
  only.
\<close>

theorem empty_content_leaves_documents_unchanged:
  "snd (end_session now [] st md) = snd md
   \<and> snd (emergency_exit [] md) = snd md
   \<and> (editor w = [] \<longrightarrow> disk (saveAndExit now w) = disk w \<and> disk (emergencyExit w) = disk w)
   \<and> (content \<noteq> [] \<longrightarrow>
        current (snd (end_session now content st md)) = Some content
      \<and> currentWrites (snd (end_session now content st md)) = currentWrites (snd md) + 1
      \<and> drafts (snd (end_session now content st md)) =
          (drafts (snd md))(now div 1000 \<mapsto>
            \<lparr>headerDate = now, headerWords = words st,
             headerDuration = (if duration st = [] then ''N/A'' else duration st),
             body = content\<rparr>)
      \<and> sessions (snd (end_session now content st md)) =
          sessions (snd md) @
            [\<lparr>date = now, entryWords = words st,
              entryDuration = (if duration st = [] then None else Some (duration st)),
              entryGoalType = Some (statsGoalType st),
              entryGoalValue = (if statsGoalValue st = 0 then None else Some (statsGoalValue st)),
              entryCompleted = completed st, draftPath = now div 1000\<rparr>]
      \<and> snd (emergency_exit content md) =
          (snd md)\<lparr>current := Some content, currentWrites := currentWrites (snd md) + 1\<rparr>)"
  by (simp add: end_session_def emergency_exit_def saveAndExit_fields emergencyExit_fields
      archiveDraft_fields saveContent_def Let_def)

text \<open>
  C5, as amended.  When the editor is not empty, \<open>saveAndExit\<close> writes its text to the
  draft, writes an archive file named by the clock reading whose header holds the clock
  reading, the words written in the session and the formatted duration, and appends one
  history entry whose \<open>completed\<close> field is \<open>goalTriggered\<close> as it stands at the exit,
  whether or not the goal was reached; the session is reset to Idle.
\<close>

theorem saveAndExit_persists_archives_and_logs:
  assumes "editor w \<noteq> []"
  shows "current (disk (saveAndExit now w)) = Some (editor w)
     \<and> drafts (disk (saveAndExit now w)) (now div 1000) =
         Some \<lparr>headerDate = now,
               headerWords = currentWordCount (session w) - startWordCount (session w),
               headerDuration = formatTime (elapsedSeconds (session w)),
               body = editor w\<rparr>
     \<and> sessions (disk (saveAndExit now w)) =
         sessions (disk w) @
           [\<lparr>date = now,
             entryWords = currentWordCount (session w) - startWordCount (session w),
             entryDuration = Some (formatTime (elapsedSeconds (session w))),
             entryGoalType = Some (goalType (session w)),
             entryGoalValue = (if goalValue (session w) = 0 then None
                               else Some (goalValue (session w))),
             entryCompleted = goalTriggered (session w),
             draftPath = now div 1000\<rparr>]
     \<and> session (saveAndExit now w) = initialSession
     \<and> phase (saveAndExit now w) = Idle"
  using assms
  by (simp add: saveAndExit_fields archiveDraft_fields saveContent_def exitStats_def
      formatTime_not_empty phase_def initialSession_def)


subsection \<open>Sessions for the examples\<close>

lemma handleEditorInput_eq:
  "handleEditorInput w =
     (if wordGoalDue w
      then goalReached (w\<lparr>session := (session w)
             \<lparr>currentWordCount := int (countWords (editor w)), goalTriggered := True\<rparr>\<rparr>)
      else w\<lparr>session := (session w)\<lparr>currentWordCount := int (countWords (editor w))\<rparr>\<rparr>)"
proof (cases "wordGoalDue w")
  case True
  then show ?thesis
    unfolding wordGoalDue_def by (simp add: handleEditorInput_def Let_def)
next
  case False
  then show ?thesis
    unfolding wordGoalDue_def by (auto simp: handleEditorInput_def Let_def)
qed

lemma countWords_examples:
  "countWords [] = 0" "countWords ''a b'' = 2" "countWords ''a b c d e f g h i j'' = 10"
  "countWords ''more words'' = 2"
  by (simp_all add: countWords_tokens tokens_def isWhiteSpace_def)

lemma parseInt_10: "parseInt ''10'' = Some 10"
  by (simp add: parseInt_def isWhiteSpace_def isDigit_def digitValue_def digitsValue_def Let_def)

lemma tenWordSession_eq:
  "tenWordSession = beginSession 10 0 (boot\<lparr>wordGoal := ''10''\<rparr>)"
  unfolding tenWordSession_def
  by (rule startSession_ok)
    (simp_all add: boot_facts parseInt_10 lowerBound_def upperBound_def)

lemma tenWordSession_fields:
  "intervals tenWordSession = [(1, TickTimer), (2, AutoSaveTimer)]"
  "nextHandle tenWordSession = 3"
  "invoked tenWordSession = [''start-session'']"
  "disk tenWordSession = disk boot"
  "editor tenWordSession = []"
  "console tenWordSession = []"
  by (simp_all add: tenWordSession_eq beginSession_eq boot_def)

lemma disk_boot:
  "disk boot = \<lparr>current = None, currentWrites = 0, drafts = Map.empty, sessions = []\<rparr>"
  by (simp add: boot_def)

lemma twoWordsTyped_fields:
  "session twoWordsTyped =
     \<lparr>active = True, goalType = Words, goalValue = 10, strictMode = True,
      startTime = Some 0, startWordCount = 0, currentWordCount = 2,
      timerInterval = Some 1, autoSaveInterval = Some 2, elapsedSeconds = 0,
      goalTriggered = False, goalCompleted = False\<rparr>"
  "editor twoWordsTyped = ''a b''"
  "disk twoWordsTyped = disk boot"
  "goalReachedCalls twoWordsTyped = 0"
  by (simp_all add: twoWordsTyped_def step_def handleEditorInput_eq wordGoalDue_def
      tenWordSession_session tenWordSession_calls tenWordSession_fields countWords_examples)

lemma tenWordsTyped_fields:
  "session tenWordsTyped =
     \<lparr>active = False, goalType = Words, goalValue = 10, strictMode = True,
      startTime = Some 0, startWordCount = 0, currentWordCount = 10,
      timerInterval = Some 1, autoSaveInterval = Some 2, elapsedSeconds = 0,
      goalTriggered = True, goalCompleted = True\<rparr>"
  "editor tenWordsTyped = ''a b c d e f g h i j''"
  "disk tenWordsTyped =
     \<lparr>current = Some ''a b c d e f g h i j'', currentWrites = 1, drafts = Map.empty,
      sessions = []\<rparr>"
  "goalReachedCalls tenWordsTyped = 1"
  "intervals tenWordsTyped = [(1, TickTimer)]"
  by (simp_all add: tenWordsTyped_def step_def handleEditorInput_eq wordGoalDue_def
      goalReached_eq tenWordSession_session tenWordSession_calls tenWordSession_fields
      countWords_examples saveContent_def disk_boot)

lemma oneMinuteReached_more:
  "editor oneMinuteReached = []"
  "disk oneMinuteReached =
     \<lparr>current = Some [], currentWrites = 1, drafts = Map.empty, sessions = []\<rparr>"
  by (simp_all add: oneMinuteReached_def tick_eq goalReached_eq timeGoalDue_def
      actualElapsed_def oneMinuteSession_fields Let_def saveContent_def disk_boot)

lemma ceilTimes1_2_1: "ceilTimes1_2 1 = 2"
  by (simp add: ceilTimes1_2_def roundSignificand_def bitLength.simps Let_def)

lemma keptWriting_fields:
  "session keptWriting =
     \<lparr>active = True, goalType = Time, goalValue = 11, strictMode = True,
      startTime = Some 7000, startWordCount = 0, currentWordCount = 2,
      timerInterval = Some 3, autoSaveInterval = Some 4, elapsedSeconds = 160,
      goalTriggered = False, goalCompleted = False\<rparr>"
  "editor keptWriting = ''more words''"
  "disk keptWriting = disk oneMinuteReached"
  "goalReachedCalls keptWriting = 1"
  by (simp_all add: keptWriting_def step_def handleEditorInput_eq wordGoalDue_def
      keepWriting_eq oneMinuteReached_fields oneMinuteReached_more countWords_examples)


theorem empty_content_leaves_documents_unchanged_witness:
  "editor oneMinuteReached = []
   \<and> disk (saveAndExit 200000 oneMinuteReached) = disk oneMinuteReached
   \<and> disk (emergencyExit oneMinuteReached) = disk oneMinuteReached
   \<and> current (snd (end_session 5000 ''draft'' (exitStats twoWordsTyped) (main boot, disk boot)))
       = Some ''draft''
   \<and> length (sessions
        (snd (end_session 5000 ''draft'' (exitStats twoWordsTyped) (main boot, disk boot)))) = 1
   \<and> current (snd (emergency_exit ''draft'' (main boot, disk boot))) = Some ''draft''
   \<and> sessions (snd (emergency_exit ''draft'' (main boot, disk boot))) = []"
proof -
  note t = empty_content_leaves_documents_unchanged
    [where w = oneMinuteReached and now = 200000 and content = "''draft''"
       and md = "(main boot, disk boot)" and st = "exitStats twoWordsTyped"]
  note u = empty_content_leaves_documents_unchanged
    [where w = oneMinuteReached and now = 5000 and content = "''draft''"
       and md = "(main boot, disk boot)" and st = "exitStats twoWordsTyped"]
  have empty: "editor oneMinuteReached = []"
    by (rule oneMinuteReached_more)
  from t [THEN conjunct2, THEN conjunct2, THEN conjunct1] empty
  have frame: "disk (saveAndExit 200000 oneMinuteReached) = disk oneMinuteReached"
      "disk (emergencyExit oneMinuteReached) = disk oneMinuteReached"
    by blast+
  from u [THEN conjunct2, THEN conjunct2, THEN conjunct2]
  have saved: "current (snd (end_session 5000 ''draft'' (exitStats twoWordsTyped) (main boot, disk boot)))
       = Some ''draft''"
    and logged: "sessions (snd (end_session 5000 ''draft'' (exitStats twoWordsTyped) (main boot, disk boot)))
       = sessions (disk boot) @
            [\<lparr>date = 5000, entryWords = words (exitStats twoWordsTyped),
              entryDuration = (if duration (exitStats twoWordsTyped) = [] then None
                               else Some (duration (exitStats twoWordsTyped))),
              entryGoalType = Some (statsGoalType (exitStats twoWordsTyped)),
              entryGoalValue = (if statsGoalValue (exitStats twoWordsTyped) = 0 then None
                                else Some (statsGoalValue (exitStats twoWordsTyped))),
              entryCompleted = completed (exitStats twoWordsTyped), draftPath = 5000 div 1000\<rparr>]"
    and emergency: "snd (emergency_exit ''draft'' (main boot, disk boot)) =
          (disk boot)\<lparr>current := Some ''draft'', currentWrites := currentWrites (disk boot) + 1\<rparr>"
    by simp_all
  show ?thesis
    unfolding frame saved logged emergency
    by (simp add: empty disk_boot)
qed

theorem saveAndExit_persists_archives_and_logs_witness:
  "editor tenWordsTyped = ''a b c d e f g h i j''
   \<and> goalTriggered (session tenWordsTyped)
   \<and> current (disk (saveAndExit 90000 tenWordsTyped)) = Some ''a b c d e f g h i j''
   \<and> map entryCompleted (sessions (disk (saveAndExit 90000 tenWordsTyped))) = [True]
   \<and> map entryWords (sessions (disk (saveAndExit 90000 tenWordsTyped))) = [10]
   \<and> editor twoWordsTyped = ''a b''
   \<and> \<not> goalTriggered (session twoWordsTyped)
   \<and> map entryCompleted (sessions (disk (saveAndExit 90000 twoWordsTyped))) = [False]
   \<and> phase (saveAndExit 90000 twoWordsTyped) = Idle"
proof -
  have ten: "editor tenWordsTyped \<noteq> []" and two: "editor twoWordsTyped \<noteq> []"
    by (simp_all add: tenWordsTyped_fields twoWordsTyped_fields)
  note a = saveAndExit_persists_archives_and_logs [OF ten, of 90000]
  note b = saveAndExit_persists_archives_and_logs [OF two, of 90000]
  from a have a1: "current (disk (saveAndExit 90000 tenWordsTyped)) = Some ''a b c d e f g h i j''"
    and a2: "map entryCompleted (sessions (disk (saveAndExit 90000 tenWordsTyped))) = [True]"
    and a3: "map entryWords (sessions (disk (saveAndExit 90000 tenWordsTyped))) = [10]"
    by (simp_all add: tenWordsTyped_fields)
  from b have b1: "map entryCompleted (sessions (disk (saveAndExit 90000 twoWordsTyped))) = [False]"
    and b2: "phase (saveAndExit 90000 twoWordsTyped) = Idle"
    by (simp_all add: twoWordsTyped_fields disk_boot)
  show ?thesis
    unfolding a1 a2 a3 b1 b2 by (simp add: tenWordsTyped_fields twoWordsTyped_fields)
qed

theorem saveAndExit_with_empty_editor_logs_nothing:
  "editor oneMinuteReached = []
   \<and> goalTriggered (session oneMinuteReached)
   \<and> sessions (disk (saveAndExit 200000 oneMinuteReached)) = []
   \<and> drafts (disk (saveAndExit 200000 oneMinuteReached)) 200 = None
   \<and> goalReachedCalls keptWriting = 1
   \<and> map entryCompleted (sessions (disk (saveAndExit 200000 keptWriting))) = [False]"
  by (simp add: saveAndExit_fields archiveDraft_fields exitStats_def oneMinuteReached_fields
      oneMinuteReached_more keptWriting_fields saveContent_def)

subsection \<open>The emergency exit\<close>

lemma emergencyPhrase_examples:
  "emergencyPhrase ''i give up''" "emergencyPhrase '' I GIVE UP ''"
  "emergencyPhrase ''I Give Up''" "\<not> emergencyPhrase ''I give''"
  "emergencyPhrase ''I GIVE UP''"
  unfolding emergencyPhrase_def by code_simp+

lemma releaseOnExit_fields:
  assumes "mainWindow m \<noteq> None"
  shows "\<not> isSessionActive (releaseOnExit m)"
    and "sessionConfig (releaseOnExit m) = None"
    and "mainWindow (releaseOnExit m) \<noteq> None"
    and "strictConfig m \<Longrightarrow> released (releaseOnExit m)"
    and "released m \<Longrightarrow> released (releaseOnExit m)"
  using assms
  by (auto simp: releaseOnExit_def exitLockdown_def setFullScreen_def released_def Let_def
      split: option.splits)


lemma checkEmergencyPhrase_eq:
  "checkEmergencyPhrase w = (if emergencyPhrase (emergencyInput w) then emergencyExit w else w)"
  unfolding checkEmergencyPhrase_def emergencyPhrase_def Let_def by (rule refl)

lemma emergencyExit_draft:
  "currentDraft (emergencyExit w) =
     (let d = (if editor w \<noteq> [] then saveContent (editor w) (disk w) else disk w)
      in if load_draft d \<noteq> [] \<and> trim (load_draft d) \<noteq> [] then load_draft d else [])"
  by (simp add: emergencyExit_eq Let_def)

lemma autoSave_eq:
  "autoSave w =
     (if \<not> active (session w) \<and> \<not> goalCompleted (session w) then w
      else w\<lparr>invoked := invoked w @ [''save-content''],
             disk := saveContent (editor w) (disk w)\<rparr>)"
  by (simp add: autoSave_def focusWriter_saveContent_def invoke_def Let_def)

text \<open>
  C6, as amended.  \<open>checkEmergencyPhrase\<close> runs the emergency exit exactly when the text of
  the emergency field, in upper case and trimmed, is \<open>I GIVE UP\<close>; so it does for
  \<open>i give up\<close>, for \<open>I GIVE UP\<close> between spaces and for \<open>I Give Up\<close>, and not for
  \<open>I give\<close>.  The exit writes the editor's text to the draft when it is not empty and
  leaves the draft as it was when it is; it writes no archive file and no history entry.
  With the window open it clears \<open>isSessionActive\<close>, so that the window can be closed, and
  undoes the lockdown of a strict session, in whatever phase the session is.  It stops the
  session's timers and resets the session to Idle.
\<close>

theorem emergency_phrase_exits_session:
  assumes "mainWindow (main w) \<noteq> None"
  shows "checkEmergencyPhrase w =
           (if trim (toUpperCase (emergencyInput w)) = ''I GIVE UP'' then emergencyExit w else w)
     \<and> trim (toUpperCase ''i give up'') = ''I GIVE UP''
     \<and> trim (toUpperCase '' I GIVE UP '') = ''I GIVE UP''
     \<and> trim (toUpperCase ''I Give Up'') = ''I GIVE UP''
     \<and> trim (toUpperCase ''I give'') \<noteq> ''I GIVE UP''
     \<and> (editor w \<noteq> [] \<longrightarrow> current (disk (emergencyExit w)) = Some (editor w))
     \<and> (editor w = [] \<longrightarrow> current (disk (emergencyExit w)) = current (disk w))
     \<and> drafts (disk (emergencyExit w)) = drafts (disk w)
     \<and> sessions (disk (emergencyExit w)) = sessions (disk w)
     \<and> \<not> isSessionActive (main (emergencyExit w))
     \<and> \<not> closePrevented (emergencyExit w)
     \<and> (strictConfig (main w) \<or> released (main w) \<longrightarrow> released (main (emergencyExit w)))
     \<and> (timersOwned w \<longrightarrow> intervals (emergencyExit w) = [])
     \<and> session (emergencyExit w) = initialSession
     \<and> phase (emergencyExit w) = Idle"
proof (intro conjI impI)
  show "checkEmergencyPhrase w =
           (if trim (toUpperCase (emergencyInput w)) = ''I GIVE UP'' then emergencyExit w else w)"
    unfolding checkEmergencyPhrase_def Let_def by (rule refl)
  show "trim (toUpperCase ''i give up'') = ''I GIVE UP''"
    by (rule emergencyPhrase_examples(1) [unfolded emergencyPhrase_def])
  show "trim (toUpperCase '' I GIVE UP '') = ''I GIVE UP''"
    by (rule emergencyPhrase_examples(2) [unfolded emergencyPhrase_def])
  show "trim (toUpperCase ''I Give Up'') = ''I GIVE UP''"
    by (rule emergencyPhrase_examples(3) [unfolded emergencyPhrase_def])
  show "trim (toUpperCase ''I give'') \<noteq> ''I GIVE UP''"
    by (rule emergencyPhrase_examples(4) [unfolded emergencyPhrase_def])
  show "current (disk (emergencyExit w)) = Some (editor w)" if "editor w \<noteq> []"
    using that by (simp add: emergencyExit_fields saveContent_def)
  show "current (disk (emergencyExit w)) = current (disk w)" if "editor w = []"
    using that by (simp add: emergencyExit_fields)
  show "drafts (disk (emergencyExit w)) = drafts (disk w)"
    by (simp add: emergencyExit_fields saveContent_def)
  show "sessions (disk (emergencyExit w)) = sessions (disk w)"
    by (simp add: emergencyExit_fields saveContent_def)
  show "\<not> isSessionActive (main (emergencyExit w))"
    using releaseOnExit_fields(1) [OF assms] by (simp add: emergencyExit_fields)
  then show "\<not> closePrevented (emergencyExit w)"
    by (simp add: closePrevented_def)
  show "released (main (emergencyExit w))" if "strictConfig (main w) \<or> released (main w)"
    using that releaseOnExit_fields(4,5) [OF assms] by (auto simp: emergencyExit_fields)
  show "intervals (emergencyExit w) = []" if "timersOwned w"
    unfolding emergencyExit_fields(5) by (rule owned_timers_cleared [OF that])
  show "session (emergencyExit w) = initialSession"
    by (simp add: emergencyExit_fields)
  then show "phase (emergencyExit w) = Idle"
    by (simp add: phase_def initialSession_def)
qed


lemma tenWordSession_main:
  "main tenWordSession =
     \<lparr>mainWindow = Some \<lparr>kiosk = True, fullScreen = True, alwaysOnTop = True,
        closable = False, minimizable = False, visibleOnAllWorkspaces = True\<rparr>,
      isSessionActive = True,
      sessionConfig = Some \<lparr>configGoalType = Words, configGoalValue = 10, configStrictMode = True\<rparr>,
      lockdownInterval = True, shortcuts = True\<rparr>"
  by (simp add: tenWordSession_eq beginSession_eq boot_def initialSession_def
      start_session_def enterLockdown_def)

lemma twoWordsTyped_more:
  "main twoWordsTyped = main tenWordSession"
  "intervals twoWordsTyped = [(1, TickTimer), (2, AutoSaveTimer)]"
  by (simp_all add: twoWordsTyped_def step_def handleEditorInput_eq wordGoalDue_def
      tenWordSession_session tenWordSession_fields countWords_examples)

lemma twoWordsTyped_strict:
  "mainWindow (main twoWordsTyped) \<noteq> None" "strictConfig (main twoWordsTyped)"
  "timersOwned twoWordsTyped" "phase twoWordsTyped = Active"
  by (simp_all add: twoWordsTyped_more twoWordsTyped_fields tenWordSession_main strictConfig_def
      timersOwned_def phase_def)

lemma emptiedAfterSave_fields:
  "session emptiedAfterSave =
     \<lparr>active = True, goalType = Words, goalValue = 10, strictMode = True,
      startTime = Some 0, startWordCount = 0, currentWordCount = 0,
      timerInterval = Some 1, autoSaveInterval = Some 2, elapsedSeconds = 0,
      goalTriggered = False, goalCompleted = False\<rparr>"
  "editor emptiedAfterSave = []"
  "disk emptiedAfterSave =
     \<lparr>current = Some ''a b'', currentWrites = 1, drafts = Map.empty, sessions = []\<rparr>"
  "main emptiedAfterSave = main tenWordSession"
  by (simp_all add: emptiedAfterSave_def step_def autoSave_eq handleEditorInput_eq
      wordGoalDue_def twoWordsTyped_fields twoWordsTyped_more countWords_examples
      saveContent_def disk_boot)

text \<open>
  The strict ten-word session with two words typed: the phrase ends it, the draft holds the
  two words, nothing is logged and the lockdown is undone.
\<close>

theorem emergency_phrase_exits_session_witness:
  "phase twoWordsTyped = Active
   \<and> strictConfig (main twoWordsTyped)
   \<and> timersOwned twoWordsTyped
   \<and> isSessionActive (main twoWordsTyped)
   \<and> current (disk gaveUp) = Some ''a b''
   \<and> sessions (disk gaveUp) = []
   \<and> \<not> isSessionActive (main gaveUp)
   \<and> released (main gaveUp)
   \<and> intervals gaveUp = []
   \<and> phase gaveUp = Idle"
proof -
  let ?w = "twoWordsTyped\<lparr>emergencyInput := ''i give up''\<rparr>"
  have window: "mainWindow (main ?w) \<noteq> None"
    using twoWordsTyped_strict(1) by simp
  note t = emergency_phrase_exits_session [OF window]
  have phrase: "trim (toUpperCase (emergencyInput ?w)) = ''I GIVE UP''"
    using t [THEN conjunct2, THEN conjunct1] by simp
  have "checkEmergencyPhrase ?w = emergencyExit ?w"
    using t [THEN conjunct1] phrase by (simp only: if_True refl)
  then have exit: "gaveUp = emergencyExit ?w"
    by (simp add: gaveUp_def step_def)
  have before: "editor ?w = ''a b''" "disk ?w = disk boot" "strictConfig (main ?w)"
      "timersOwned ?w"
    using twoWordsTyped_strict by (simp_all add: twoWordsTyped_fields timersOwned_def)
  from t before show ?thesis
    unfolding exit
    by (simp add: twoWordsTyped_strict tenWordSession_main twoWordsTyped_more disk_boot)
qed

text \<open>
  The same session after an autosave, with the editor emptied since: the exit does not write
  the empty text, and the draft on disk, loaded back into the setup screen, is still the two
  words.
\<close>

theorem emergency_exit_keeps_stale_draft:
  "phase emptiedAfterSave = Active
   \<and> editor emptiedAfterSave = []
   \<and> current (disk emptiedAfterSave) = Some ''a b''
   \<and> trim (toUpperCase ''i give up'') = ''I GIVE UP''
   \<and> current (disk gaveUpEmptied) = Some ''a b''
   \<and> currentDraft gaveUpEmptied = ''a b''
   \<and> phase gaveUpEmptied = Idle"
proof -
  let ?w = "emptiedAfterSave\<lparr>emergencyInput := ''i give up''\<rparr>"
  have phrase: "trim (toUpperCase ''i give up'') = ''I GIVE UP''"
    by (rule emergencyPhrase_examples(1) [unfolded emergencyPhrase_def])
  then have exit: "gaveUpEmptied = emergencyExit ?w"
    by (simp add: gaveUpEmptied_def step_def checkEmergencyPhrase_eq emergencyPhrase_def)
  have "trim ''a b'' = ''a b''"
    by (simp add: trim_def isWhiteSpace_def)
  then show ?thesis
    unfolding exit
    by (simp add: phrase emptiedAfterSave_fields emergencyExit_fields emergencyExit_draft
        load_draft_def phase_def initialSession_def)
qed

subsection \<open>Reaching the goal in a strict session\<close>

lemma goal_reached_releases:
  assumes "mainWindow m \<noteq> None"
  shows "\<not> isSessionActive (goal_reached m)"
    and "strictConfig m \<Longrightarrow> released (goal_reached m)"
  using assms
  by (auto simp: goal_reached_def showCompletion_def released_def split: option.splits)

text \<open>
  C7.  The strict one-minute session, started at clock reading 7000, reaches its goal with
  the tick at 167000.  \<open>goalReached\<close> stops the autosave timer and keeps the tick timer,
  saves the editor's text once, and a later firing of the stopped autosave timer changes
  nothing.  The bridge of \<open>preload.js\<close> has no \<open>goalReached\<close>, so the call throws, the
  \<open>catch\<close> logs the failure and \<open>goal-reached\<close> is never invoked: the main process is as the
  start of the session left it, locked down and with \<open>isSessionActive\<close> set, and a request
  to close the window is still refused.  The handler of \<open>goal-reached\<close>, had it run, would
  have undone the lockdown.
\<close>

theorem goal_reached_leaves_lockdown_engaged:
  "phase oneMinuteSession = Active
   \<and> strictMode (session oneMinuteSession)
   \<and> intervals oneMinuteSession = [(1, TickTimer), (2, AutoSaveTimer)]
   \<and> currentWrites (disk oneMinuteSession) = 0
   \<and> phase oneMinuteReached = GoalReached
   \<and> goalReachedCalls oneMinuteReached = 1
   \<and> intervals oneMinuteReached = [(1, TickTimer)]
   \<and> currentWrites (disk oneMinuteReached) = 1
   \<and> current (disk oneMinuteReached) = Some (editor oneMinuteReached)
   \<and> step toString (TimerFires 2 177000) oneMinuteReached = oneMinuteReached
   \<and> \<not> exposed ''goalReached''
   \<and> invoked oneMinuteReached = [''start-session'', ''save-content'']
   \<and> console oneMinuteReached = [TimeJump 160, ReleaseFailed]
   \<and> main oneMinuteReached = main oneMinuteSession
   \<and> isSessionActive (main oneMinuteReached)
   \<and> \<not> released (main oneMinuteReached)
   \<and> closePrevented oneMinuteReached
   \<and> mainWindow (main (step toString CloseRequest oneMinuteReached)) \<noteq> None
   \<and> \<not> isSessionActive (goal_reached (main oneMinuteReached))
   \<and> released (goal_reached (main oneMinuteReached))"
proof -
  have window: "mainWindow (main oneMinuteReached) \<noteq> None"
    and strict: "strictConfig (main oneMinuteReached)"
    by (simp_all add: oneMinuteReached_fields oneMinuteSession_fields strictConfig_def)
  have stopped: "step toString (TimerFires 2 177000) oneMinuteReached = oneMinuteReached"
    by (simp add: step_def oneMinuteReached_fields)
  have close: "mainWindow (main (step toString CloseRequest oneMinuteReached)) \<noteq> None"
    by (simp add: step_def windowClose_def showEmergencyModal_def oneMinuteReached_fields
        oneMinuteSession_fields)
  have before: "phase oneMinuteSession = Active" "strictMode (session oneMinuteSession)"
    "currentWrites (disk oneMinuteSession) = 0"
    by (simp_all add: phase_def oneMinuteSession_fields disk_boot)
  have after: "phase oneMinuteReached = GoalReached"
    "currentWrites (disk oneMinuteReached) = 1"
    "current (disk oneMinuteReached) = Some (editor oneMinuteReached)"
    "isSessionActive (main oneMinuteReached)"
    "\<not> released (main oneMinuteReached)"
    "closePrevented oneMinuteReached"
    by (simp_all add: phase_def oneMinuteReached_fields oneMinuteReached_more
        oneMinuteSession_fields released_def closePrevented_def)
  show ?thesis
    using before after stopped close not_exposed_goalReached
      goal_reached_releases(1) [OF window] goal_reached_releases(2) [OF window strict]
    by (simp only: oneMinuteSession_fields(2) oneMinuteReached_fields(2,4,5,6,7) simp_thms)
qed

subsection \<open>Closing the window\<close>

lemma goalReached_main: "main (goalReached w) = main w"
  by (simp add: goalReached_eq)

lemma tick_main: "main (tick now w) = main w"
  by (simp add: tick_eq goalReached_eq Let_def)

lemma autoSave_main: "main (autoSave w) = main w"
  by (simp add: autoSave_eq)

lemma handleEditorInput_main: "main (handleEditorInput w) = main w"
  by (simp add: handleEditorInput_eq goalReached_eq)

lemma step_main:
  assumes "sessionEvent ev" and "isSessionActive (main w)"
  shows "main (step loc ev w) = main w"
  using assms
  by (cases ev)
    (simp_all add: step_def tick_main autoSave_main handleEditorInput_main
      checkEmergencyPhrase_eq handleGlobalKeydown_def showEmergencyModal_def windowClose_def
      split: option.splits callback.splits)

lemma run_main:
  assumes "list_all sessionEvent evs" and "isSessionActive (main w)"
  shows "main (run loc evs w) = main w"
  using assms
proof (induction evs arbitrary: w)
  case Nil
  then show ?case by simp
next
  case (Cons ev evs)
  from Cons.prems have ev: "sessionEvent ev" and evs: "list_all sessionEvent evs"
    by simp_all
  have m: "main (step loc ev w) = main w"
    by (rule step_main [OF ev Cons.prems(2)])
  with Cons.prems(2) have "isSessionActive (main (step loc ev w))"
    by simp
  from Cons.IH [OF evs this] m show ?case
    by simp
qed

lemma step_strictMode:
  assumes "sessionEvent ev"
  shows "strictMode (session (step loc ev w)) = strictMode (session w)"
  using assms
  by (cases ev)
    (simp_all add: step_def tick_session handleEditorInput_session Let_def
      checkEmergencyPhrase_eq handleGlobalKeydown_def showEmergencyModal_def windowClose_def
      split: option.splits callback.splits)

lemma run_strictMode:
  assumes "list_all sessionEvent evs"
  shows "strictMode (session (run loc evs w)) = strictMode (session w)"
  using assms
  by (induction evs arbitrary: w) (simp_all add: step_strictMode)

lemma step_ignores_strictMode:
  assumes "sessionEvent ev"
  shows "session (step loc ev (w\<lparr>session := (session w)\<lparr>strictMode := b\<rparr>\<rparr>)) =
           (session (step loc ev w))\<lparr>strictMode := b\<rparr>"
  using assms
  by (cases ev)
    (simp_all add: step_def tick_session handleEditorInput_session Let_def
      checkEmergencyPhrase_eq handleGlobalKeydown_def showEmergencyModal_def windowClose_def
      split: option.splits callback.splits)

lemma start_session_fields:
  assumes "mainWindow m \<noteq> None"
  shows "isSessionActive (start_session cfg m)"
    and "mainWindow (start_session cfg m) \<noteq> None"
    and "configStrictMode cfg \<Longrightarrow> lockdown (start_session cfg m) = engaged"
    and "\<not> configStrictMode cfg \<Longrightarrow> lockdown (start_session cfg m) = lockdown m"
  using assms
  by (auto simp: start_session_def enterLockdown_def setFullScreen_def lockdown_def engaged_def
      Let_def split: option.splits)

lemma relaxed_leaves_lockdown:
  assumes "\<not> strictConfig m"
  shows "lockdown (releaseOnExit m) = lockdown m"
    and "lockdown (goal_reached m) = lockdown m"
  using assms
  by (auto simp: releaseOnExit_def goal_reached_def setFullScreen_def lockdown_def Let_def
      split: option.splits)

text \<open>
  C8, as amended.  Start a session with the window open and a goal the form accepts, and
  let timer, editing, key and close events follow.  While the session is Active a request
  to close the window is refused, with strict mode on and with strict mode off alike: the
  window stays, the emergency modal is shown and the session is as it was.  Strict mode
  decides the lockdown only: with it the start engages the lockdown, without it the start
  leaves the lockdown as it was, and so do the handlers of \<open>end-session\<close>,
  \<open>emergency-exit\<close> and \<open>goal-reached\<close>.  The session that an event leaves does not depend
  on the session's strict mode.
\<close>

theorem close_request_is_refused_in_active_session:
  assumes "mainWindow (main w) \<noteq> None"
    and "parseInt (goalInput w) = Some n"
    and "lowerBound (goalType (session w)) \<le> n"
    and "n \<le> upperBound (goalType (session w))"
    and "list_all sessionEvent evs"
    and "phase (run loc evs (startSession loc now w)) = Active"
  shows "strictMode (session (run loc evs (startSession loc now w))) = strictModeToggle w
     \<and> closePrevented (run loc evs (startSession loc now w))
     \<and> windowClose (run loc evs (startSession loc now w)) =
         showEmergencyModal (run loc evs (startSession loc now w))
     \<and> emergencyModal (step loc CloseRequest (run loc evs (startSession loc now w)))
     \<and> mainWindow (main (step loc CloseRequest (run loc evs (startSession loc now w)))) \<noteq> None
     \<and> session (step loc CloseRequest (run loc evs (startSession loc now w))) =
         session (run loc evs (startSession loc now w))
     \<and> (strictModeToggle w \<longrightarrow>
          lockdown (main (run loc evs (startSession loc now w))) = engaged)
     \<and> (\<not> strictModeToggle w \<longrightarrow>
          lockdown (main (run loc evs (startSession loc now w))) = lockdown (main w))
     \<and> (\<not> strictConfig m \<longrightarrow>
          lockdown (releaseOnExit m) = lockdown m \<and> lockdown (goal_reached m) = lockdown m)
     \<and> (sessionEvent ev \<longrightarrow>
          session (step loc ev (v\<lparr>session := (session v)\<lparr>strictMode := b\<rparr>\<rparr>)) =
            (session (step loc ev v))\<lparr>strictMode := b\<rparr>)"
proof -
  let ?cfg = "\<lparr>configGoalType = goalType (session w), configGoalValue = n,
    configStrictMode = strictModeToggle w\<rparr>"
  let ?w = "run loc evs (startSession loc now w)"
  have start: "startSession loc now w = beginSession n now w"
    by (rule startSession_ok [OF assms(2,3,4)])
  have started: "main (startSession loc now w) = start_session ?cfg (main w)"
    "strictMode (session (startSession loc now w)) = strictModeToggle w"
    unfolding start by (simp_all add: beginSession_eq)
  note s = start_session_fields [OF assms(1), of ?cfg]
  have act: "isSessionActive (main (startSession loc now w))"
    unfolding started by (rule s(1))
  have m: "main ?w = start_session ?cfg (main w)"
    using run_main [OF assms(5) act, of loc] started(1) by simp
  have active: "isSessionActive (main ?w)"
    unfolding m by (rule s(1))
  have window: "mainWindow (main ?w) \<noteq> None"
    unfolding m by (rule s(2))
  have close: "windowClose ?w = showEmergencyModal ?w"
    unfolding windowClose_def using active by (rule if_P)
  have stp: "step loc CloseRequest ?w = showEmergencyModal ?w"
    using close by (simp add: step_def)
  show ?thesis
  proof (intro conjI impI)
    show "strictMode (session ?w) = strictModeToggle w"
      using run_strictMode [OF assms(5), of loc "startSession loc now w"] started(2) by simp
    show "closePrevented ?w"
      unfolding closePrevented_def by (rule active)
    show "windowClose ?w = showEmergencyModal ?w"
      by (rule close)
    show "emergencyModal (step loc CloseRequest ?w)"
      unfolding stp by (simp add: showEmergencyModal_def)
    show "mainWindow (main (step loc CloseRequest ?w)) \<noteq> None"
      unfolding stp using window by (simp add: showEmergencyModal_def)
    show "session (step loc CloseRequest ?w) = session ?w"
      unfolding stp by (simp add: showEmergencyModal_def)
    show "lockdown (main ?w) = engaged" if "strictModeToggle w"
      unfolding m using that by (intro s(3)) simp
    show "lockdown (main ?w) = lockdown (main w)" if "\<not> strictModeToggle w"
      unfolding m using that by (intro s(4)) simp
    show "lockdown (releaseOnExit m) = lockdown m" if "\<not> strictConfig m"
      by (rule relaxed_leaves_lockdown(1) [OF that])
    show "lockdown (goal_reached m) = lockdown m" if "\<not> strictConfig m"
      by (rule relaxed_leaves_lockdown(2) [OF that])
    show "session (step loc ev (v\<lparr>session := (session v)\<lparr>strictMode := b\<rparr>\<rparr>)) =
            (session (step loc ev v))\<lparr>strictMode := b\<rparr>" if "sessionEvent ev"
      by (rule step_ignores_strictMode [OF that])
  qed
qed

lemma relaxedSession_eq:
  "relaxedSession = beginSession 10 0 (boot\<lparr>wordGoal := ''10'', strictModeToggle := False\<rparr>)"
  unfolding relaxedSession_def
  by (rule startSession_ok)
    (simp_all add: goalInput_def boot_def initialSession_def parseInt_10 lowerBound_def
      upperBound_def)

lemma relaxedSession_fields:
  "session relaxedSession =
     \<lparr>active = True, goalType = Words, goalValue = 10, strictMode = False,
      startTime = Some 0, startWordCount = 0, currentWordCount = 0,
      timerInterval = Some 1, autoSaveInterval = Some 2, elapsedSeconds = 0,
      goalTriggered = False, goalCompleted = False\<rparr>"
  "main relaxedSession =
     \<lparr>mainWindow = Some \<lparr>kiosk = False, fullScreen = True, alwaysOnTop = False,
        closable = True, minimizable = True, visibleOnAllWorkspaces = False\<rparr>,
      isSessionActive = True,
      sessionConfig = Some \<lparr>configGoalType = Words, configGoalValue = 10, configStrictMode = False\<rparr>,
      lockdownInterval = False, shortcuts = False\<rparr>"
  "emergencyModal relaxedSession = False"
  by (simp_all add: relaxedSession_eq beginSession_eq boot_def initialSession_def
      countWords_examples start_session_def setFullScreen_def)

lemma relaxedTyped_fields:
  "session relaxedTyped =
     \<lparr>active = True, goalType = Words, goalValue = 10, strictMode = False,
      startTime = Some 0, startWordCount = 0, currentWordCount = 2,
      timerInterval = Some 1, autoSaveInterval = Some 2, elapsedSeconds = 0,
      goalTriggered = False, goalCompleted = False\<rparr>"
  by (simp add: relaxedTyped_def step_def handleEditorInput_session relaxedSession_fields
      countWords_examples Let_def)

text \<open>
  The ten-word session without strict mode, two words typed: the close request is
  refused, and the lockdown is as it was at boot.
\<close>

theorem close_request_is_refused_in_active_session_witness:
  "phase relaxedTyped = Active
   \<and> \<not> strictMode (session relaxedTyped)
   \<and> closePrevented relaxedTyped
   \<and> emergencyModal (step toString CloseRequest relaxedTyped)
   \<and> mainWindow (main (step toString CloseRequest relaxedTyped)) \<noteq> None
   \<and> lockdown (main relaxedTyped) = lockdown (main boot)
   \<and> lockdown (main boot) \<noteq> engaged"
proof -
  let ?w = "boot\<lparr>wordGoal := ''10'', strictModeToggle := False\<rparr>"
  have phase: "phase relaxedTyped = Active"
    by (simp add: phase_def relaxedTyped_fields)
  have boot: "lockdown (main boot) \<noteq> engaged" "main ?w = main boot"
    by (simp_all add: boot_def lockdown_def engaged_def)
  have "phase (run toString [EditorInput ''a b''] (startSession toString 0 ?w)) = Active"
    using phase by (simp only: relaxedTyped_def relaxedSession_def)
  note t = close_request_is_refused_in_active_session
    [where w = ?w and n = 10 and evs = "[EditorInput ''a b'']" and loc = toString and now = 0,
     folded relaxedSession_def, folded relaxedTyped_def]
  have "mainWindow (main ?w) \<noteq> None" "parseInt (goalInput ?w) = Some 10"
    "lowerBound (goalType (session ?w)) \<le> 10" "10 \<le> upperBound (goalType (session ?w))"
    "list_all sessionEvent [EditorInput ''a b'']" "strictModeToggle ?w = False"
    by (simp_all add: goalInput_def boot_def initialSession_def parseInt_10 lowerBound_def
        upperBound_def)
  from t [OF this(1-5) phase] this(6) boot phase show ?thesis
    by simp
qed

text \<open>
  The ten-word session without strict mode, just started: it is Active and not strict, and
  the request to close the window is refused all the same; the window stays and the
  emergency modal appears.
\<close>

theorem close_request_refused_without_strict_mode:
  "phase relaxedSession = Active
   \<and> \<not> strictMode (session relaxedSession)
   \<and> \<not> strictConfig (main relaxedSession)
   \<and> closePrevented relaxedSession
   \<and> \<not> emergencyModal relaxedSession
   \<and> emergencyModal (step toString CloseRequest relaxedSession)
   \<and> mainWindow (main (step toString CloseRequest relaxedSession)) \<noteq> None"
  by (simp add: phase_def relaxedSession_fields strictConfig_def closePrevented_def step_def
      windowClose_def showEmergencyModal_def)

end
